theory Spec2Isabelle
  imports Main "HOL-Library.AList"
begin

section \<open>Exceptions\<close>

text \<open>
  Every \<^verbatim>\<open>raise\<close> of the modelled code is a value of \<open>error\<close>, one constructor per raise
  site. \<open>exc_class\<close> gives the Python exception class of each, which is what an
  \<^verbatim>\<open>except ValueError\<close> clause looks at.
\<close>

datatype pyclass = KeyErrorC | ValueErrorC | TypeErrorC | AttributeErrorC

datatype error =
    Reference_Not_Found   \<comment> \<open>\<^verbatim>\<open>KeyError('Cell or data %s not found')\<close> in \<^verbatim>\<open>Link.__init__\<close>\<close>
  | Invalid_Link          \<comment> \<open>\<^verbatim>\<open>ValueError('Cannot link 2 datasets')\<close>\<close>
  | Unresolvable_Link     \<comment> \<open>\<^verbatim>\<open>TypeError('Link between ... requires a resolvable dimension')\<close>\<close>
  | No_Link_Key           \<comment> \<open>\<^verbatim>\<open>TypeError('Class %s has no key')\<close> in \<^verbatim>\<open>Link.Node.__init__\<close>\<close>
  | Unknown_Cell_Type     \<comment> \<open>\<^verbatim>\<open>KeyError('Unexpected cell subclass ...')\<close> in \<^verbatim>\<open>resolve_class\<close>\<close>
  | Args_Not_Found        \<comment> \<open>\<^verbatim>\<open>KeyError('Cell args of %s not found but cell already set')\<close>\<close>
  | Unknown_Argument      \<comment> \<open>\<^verbatim>\<open>KeyError('Requested key %s not found in %s and cell already exists.')\<close>\<close>
  | Argument_Mismatch     \<comment> \<open>\<^verbatim>\<open>ValueError('Key %s already set and differs ...')\<close>\<close>
  | No_Such_Node          \<comment> \<open>\<^verbatim>\<open>KeyError('Link does not have node')\<close> in \<^verbatim>\<open>Link.query\<close>\<close>
  | Unsupported_Key       \<comment> \<open>\<^verbatim>\<open>KeyError('Link with node ... does not support key')\<close>\<close>
  | Missing_Required      \<comment> \<open>\<^verbatim>\<open>TypeError('Required argument %s not provided ...')\<close> in \<^verbatim>\<open>Cell.factory\<close>\<close>
  | Component_Not_Found   \<comment> \<open>\<^verbatim>\<open>KeyError('Component `%s` not found')\<close> in \<^verbatim>\<open>Cell.select_params\<close>\<close>
  | Bare_KeyError         \<comment> \<open>\<^verbatim>\<open>raise KeyError\<close>, or a failed dictionary subscript\<close>
  | Bare_ValueError       \<comment> \<open>\<^verbatim>\<open>raise ValueError\<close>\<close>
  | Call_TypeError        \<comment> \<open>a call whose arguments do not bind to the signature\<close>
  | Attribute_Error       \<comment> \<open>\<^verbatim>\<open>AttributeError\<close>: attribute access on \<^verbatim>\<open>None\<close> or on an object without it\<close>
  | None_TypeError        \<comment> \<open>subscript of \<^verbatim>\<open>None\<close>\<close>

fun exc_class :: "error \<Rightarrow> pyclass" where
  "exc_class Reference_Not_Found = KeyErrorC"
| "exc_class Invalid_Link = ValueErrorC"
| "exc_class Unresolvable_Link = TypeErrorC"
| "exc_class No_Link_Key = TypeErrorC"
| "exc_class Unknown_Cell_Type = KeyErrorC"
| "exc_class Args_Not_Found = KeyErrorC"
| "exc_class Unknown_Argument = KeyErrorC"
| "exc_class Argument_Mismatch = ValueErrorC"
| "exc_class No_Such_Node = KeyErrorC"
| "exc_class Unsupported_Key = KeyErrorC"
| "exc_class Missing_Required = TypeErrorC"
| "exc_class Component_Not_Found = KeyErrorC"
| "exc_class Bare_KeyError = KeyErrorC"
| "exc_class Bare_ValueError = ValueErrorC"
| "exc_class Call_TypeError = TypeErrorC"
| "exc_class Attribute_Error = AttributeErrorC"
| "exc_class None_TypeError = TypeErrorC"

section \<open>Dotted references\<close>

text \<open>\<^verbatim>\<open>s.split('.')\<close>: never empty; \<^verbatim>\<open>''.split('.') == ['']\<close>.\<close>

fun split_dot :: "string \<Rightarrow> string list" where
  "split_dot [] = [[]]"
| "split_dot (c # cs) =
     (if c = CHR ''.'' then [] # split_dot cs
      else (case split_dot cs of [] \<Rightarrow> [[c]] | w # ws \<Rightarrow> (c # w) # ws))"

text \<open>\<^verbatim>\<open>'.'.join(xs)\<close>.\<close>

fun join_dot :: "string list \<Rightarrow> string" where
  "join_dot [] = []"
| "join_dot [x] = x"
| "join_dot (x # y # ys) = x @ ''.'' @ join_dot (y # ys)"

text \<open>
  \<^verbatim>\<open>split_arg(arg, idx=-1)\<close> of \<^verbatim>\<open>Link.__init__\<close>, which \<^verbatim>\<open>Manager.split_ref\<close> repeats:
  \<^verbatim>\<open>s[:-1]\<close> is \<open>butlast\<close>, \<^verbatim>\<open>s[-1:]\<close> is the last element alone (\<open>s\<close> is never empty).
\<close>

definition split_arg :: "string \<Rightarrow> string \<times> string" where
  "split_arg arg = (let s = split_dot arg in (join_dot (butlast s), join_dot [last s]))"

text \<open>
  Modelled from the spec: \<^verbatim>\<open>_p\<close> of \<^verbatim>\<open>utils/tools.py\<close>, which is not among the sources;
  the spec gives the fully-qualified name as \<^verbatim>\<open><cell_name>.<param_key>\<close>.
\<close>

definition p_name :: "string \<Rightarrow> string \<Rightarrow> string" where
  "p_name pp nm = pp @ ''.'' @ nm"

text \<open>\<^verbatim>\<open>'%d' % i\<close> for a non-negative \<open>i\<close>.\<close>

fun show_nat :: "nat \<Rightarrow> string" where
  "show_nat n =
     (if n < 10 then [char_of (48 + n)]
      else show_nat (n div 10) @ [char_of (48 + n mod 10)])"

declare show_nat.simps [simp del]

section \<open>Data model\<close>

subsection \<open>Cell instances (models/cell.py)\<close>

text \<open>
  A numeric array is represented by its shape; its contents are floating point and play
  no part in the registry logic. An entry of \<^verbatim>\<open>self.params\<close> is one array or a list of
  arrays. A \<open>handle\<close> is the object \<^verbatim>\<open>theano.shared(...)\<close> returns: \<open>hid\<close> is its
  identity, so that two handles are the same object exactly when they are equal.
\<close>

datatype ndarray = NdArray (shape: "nat list")

datatype param = Arr ndarray | ArrList "ndarray list"

datatype handle = Shared (hid: nat) (hname: string) (hvalue: ndarray)

text \<open>
  \<open>dict\<close> is the part of \<^verbatim>\<open>self.__dict__\<close> that holds sub-components and parameter
  handles (both are stored there under their key): a component is a cell, a list of
  cells or \<^verbatim>\<open>None\<close>; a parameter is a handle or a list of handles. \<open>params\<close> is
  \<^verbatim>\<open>self.params\<close>, \<open>None\<close> before \<^verbatim>\<open>init_params\<close>.
\<close>

datatype attr =
    Handle handle
  | Handles "handle list"
  | Comp cell
  | Comps "cell list"
  | NoneAttr
and cell = Cell
  (cname: string)
  (params: "(string \<times> param) list option")
  (component_keys: "string list")
  (dict: "(string \<times> attr) list")
  (n_params: nat)
  (n_component_params: nat)
  (total_params: nat)
  (param_keys: "string list")

subsection \<open>Argument values, cell classes, links\<close>

text \<open>
  A plain argument value. A link's \<open>link_value\<close> and \<open>link_distribution\<close> are plain:
  they come from a dataset's tables or from \<^verbatim>\<open>set_link_value\<close>, which never returns a
  \<^verbatim>\<open>Link\<close>.
\<close>

datatype pyval = VNone | VInt int | VStr string | VShape "int list"

text \<open>
  The class-level metadata of a \<^verbatim>\<open>Cell\<close> subclass: \<^verbatim>\<open>_dim_map\<close>, \<^verbatim>\<open>_dist_map\<close>,
  \<^verbatim>\<open>_required\<close>, and \<^verbatim>\<open>_distribution\<close>. The last is read by \<^verbatim>\<open>Link.Node.__init__\<close> and
  \<^verbatim>\<open>Manager.add_link\<close>, but \<^verbatim>\<open>Cell\<close> and the subclasses among the sources declare no such
  attribute, and reading an attribute that a class does not have raises
  \<^verbatim>\<open>AttributeError\<close>. So \<open>class_distribution\<close> is \<open>None\<close> for a class without the
  attribute, and \<open>Some d\<close> for a class that declares it, \<open>d\<close> being \<^verbatim>\<open>None\<close> or the
  distribution requirement.
\<close>

record cell_class =
  dim_map :: "(string \<times> string) list"
  dist_map :: "(string \<times> string) list"
  class_distribution :: "string option option"
  required :: "string list"

record node =
  C :: cell_class
  link_key :: string
  dim_key :: string
  dist_key :: "string option"

text \<open>
  \<^verbatim>\<open>Link\<close>: \<^verbatim>\<open>name\<close>, \<^verbatim>\<open>value\<close>, \<^verbatim>\<open>distribution\<close>, \<^verbatim>\<open>nodes\<close>. The back reference \<^verbatim>\<open>cm\<close>
  to the manager is not stored: no method modelled here reads it after construction.
\<close>

record link =
  link_name :: string
  link_value :: pyval
  link_distribution :: pyval
  link_nodes :: "(string \<times> node) list"

text \<open>An entry of a cell's argument record: a plain value or a \<^verbatim>\<open>Link\<close> placeholder.\<close>

datatype arg = Val pyval | LinkRef link

type_synonym args = "(string \<times> arg) list"

subsection \<open>The manager\<close>

record dataset =
  dims :: "(string \<times> pyval) list"
  distributions :: "(string \<times> pyval) list"

text \<open>
  \<^verbatim>\<open>cells\<close> and \<^verbatim>\<open>cell_args\<close> are \<^verbatim>\<open>OrderedDict\<close>s: association lists in insertion order,
  written with \<open>AList.update\<close> (an existing key keeps its place, a new one goes last).
  The plain dictionaries are association lists too, read with \<open>map_of\<close>; where the code
  iterates over one, the order of the list stands for the order Python happens to use.
  \<open>next_id\<close> is the allocator of handle identities.
\<close>

record manager =
  cells :: "(string \<times> cell) list"
  cell_args :: "(string \<times> args) list"
  links :: "link list"
  classes :: "(string \<times> cell_class) list"
  datasets :: "(string \<times> dataset) list"
  tparams :: "(string \<times> handle) list"
  next_id :: nat

text \<open>Sequencing of calls that may raise.\<close>

definition and_then :: "error + 'a \<Rightarrow> ('a \<Rightarrow> error + 'b) \<Rightarrow> error + 'b" where
  "and_then r f = (case r of Inl e \<Rightarrow> Inl e | Inr v \<Rightarrow> f v)"

text \<open>
  \<^verbatim>\<open>try: x = call except ValueError: pass\<close>: a \<^verbatim>\<open>ValueError\<close> leaves \<open>x\<close> as it was,
  any other exception propagates.
\<close>

definition except_ValueError :: "error + 'a \<Rightarrow> 'a \<Rightarrow> error + 'a" where
  "except_ValueError r old =
     (case r of
        Inr v \<Rightarrow> Inr v
      | Inl e \<Rightarrow> if exc_class e = ValueErrorC then Inr old else Inl e)"

section \<open>Links (cortex/__init__.py, models/cell.py)\<close>

text \<open>
  The module-level \<^verbatim>\<open>resolve_class(cell_type, classes)\<close>: the subscript
  \<^verbatim>\<open>classes[cell_type]\<close> fails for every value that is not a registered tag.
\<close>

definition resolve_class :: "(string \<times> cell_class) list \<Rightarrow> arg \<Rightarrow> error + cell_class" where
  "resolve_class clss cell_type =
     (case cell_type of
        Val (VStr s) \<Rightarrow>
          (case map_of clss s of None \<Rightarrow> Inl Unknown_Cell_Type | Some c \<Rightarrow> Inr c)
      | _ \<Rightarrow> Inl Unknown_Cell_Type)"

text \<open>
  The attributes of a \<^verbatim>\<open>Manager\<close> instance that cortex/__init__.py defines: those that
  \<^verbatim>\<open>Manager.__init__\<close> assigns, and the attributes of the class. (What a \<^verbatim>\<open>Manager\<close>
  inherits from \<^verbatim>\<open>object\<close> are names with two leading underscores.)
\<close>

definition Manager_attributes :: "string list" where
  "Manager_attributes =
     [''logger'', ''cells'', ''cell_args'', ''links'', ''classes'', ''dataset_classes'',
      ''tparams'', ''datasets'', ''_instance'', ''__init__'', ''add_cell_class'',
      ''add_dataset_class'', ''split_ref'', ''reset'', ''resolve_class'', ''match_args'',
      ''make_data'', ''build'', ''build_cell'', ''prepare_cell'', ''register_cell'',
      ''remove_cell'', ''resolve_links'', ''add_link'', ''__getitem__'', ''__setitem__'']"

text \<open>
  The expression \<^verbatim>\<open>manager.link.Link\<close> of models/cell.py. There \<^verbatim>\<open>manager\<close> is what
  \<^verbatim>\<open>from .. import manager\<close> binds: the \<^verbatim>\<open>Manager\<close> instance of line 307 of
  cortex/__init__.py. A \<^verbatim>\<open>Manager\<close> has no attribute \<^verbatim>\<open>link\<close>, so the expression raises
  \<^verbatim>\<open>AttributeError\<close> whenever it is evaluated.
\<close>

definition manager_link_Link :: "error + unit" where
  "manager_link_Link =
     (if ''link'' \<in> set Manager_attributes then Inr () else Inl Attribute_Error)"

text \<open>
  \<^verbatim>\<open>Cell.set_link_value(C, key, **kwargs)\<close>. \<^verbatim>\<open>kwargs.get(k, None)\<close> is \<^verbatim>\<open>None\<close> for an
  absent key and for a key bound to \<^verbatim>\<open>None\<close>. The first condition evaluated after that
  is \<^verbatim>\<open>isinstance(value, manager.link.Link)\<close>.
\<close>

definition set_link_value :: "cell_class \<Rightarrow> string \<Rightarrow> args \<Rightarrow> error + pyval" where
  "set_link_value cls key kwargs =
     (case map_of (dim_map cls) key of
        None \<Rightarrow> Inl Bare_KeyError
      | Some dk \<Rightarrow>
          and_then manager_link_Link
            (\<lambda>Link_class.
               case map_of kwargs dk of
                 None \<Rightarrow> Inl Bare_ValueError
               | Some (Val v) \<Rightarrow> if v \<noteq> VNone then Inr v else Inl Bare_ValueError
               | Some (LinkRef l) \<Rightarrow>
                   if link_value l \<noteq> VNone then Inr (link_value l)
                   else Inl Bare_ValueError))"

text \<open>\<^verbatim>\<open>Cell.get_link_value(C, link, key)\<close>.\<close>

definition get_link_value :: "cell_class \<Rightarrow> link \<Rightarrow> string \<Rightarrow> error + (string \<times> pyval)" where
  "get_link_value cls l key =
     (case map_of (dim_map cls) key of
        None \<Rightarrow> Inl Bare_KeyError
      | Some dk \<Rightarrow> if link_value l = VNone then Inl Bare_ValueError else Inr (dk, link_value l))"

text \<open>
  \<^verbatim>\<open>Cell.set_link_distribution(C, key, **kwargs)\<close>; \<open>key\<close> is whatever value the caller
  bound to the parameter, and only a string can be a key of \<^verbatim>\<open>_dist_map\<close>. For a key of
  \<^verbatim>\<open>_dist_map\<close> the condition \<^verbatim>\<open>isinstance(value, manager.link.Link)\<close> is evaluated first,
  as in \<^verbatim>\<open>set_link_value\<close>.
\<close>

definition set_link_distribution :: "cell_class \<Rightarrow> arg \<Rightarrow> args \<Rightarrow> error + pyval" where
  "set_link_distribution cls key kwargs =
     (case key of
        Val (VStr k) \<Rightarrow>
          (case map_of (dist_map cls) k of
             None \<Rightarrow> Inl Bare_KeyError
           | Some dk \<Rightarrow>
               and_then manager_link_Link
                 (\<lambda>Link_class.
                    case map_of kwargs dk of
                      Some (Val v) \<Rightarrow> if v \<noteq> VNone then Inr v else Inl Bare_ValueError
                    | _ \<Rightarrow> Inl Bare_ValueError))
      | _ \<Rightarrow> Inl Bare_KeyError)"

text \<open>
  The two call sites in \<^verbatim>\<open>Link.__init__\<close>, with Python's argument binding written out.
  \<^verbatim>\<open>t_class.set_link_value(t_key, **t_args)\<close> passes \<open>key\<close> positionally, so a record
  that has an entry \<^verbatim>\<open>key\<close> (or \<^verbatim>\<open>C\<close>) gives the parameter two values: \<^verbatim>\<open>TypeError\<close>.
  \<^verbatim>\<open>t_class.set_link_distribution(**t_args)\<close> passes no \<open>key\<close>, so the parameter is bound
  from the record's entry \<^verbatim>\<open>key\<close>, and without that entry the call is a \<^verbatim>\<open>TypeError\<close>.
  The class is \<^verbatim>\<open>None\<close> for an endpoint that \<^verbatim>\<open>get_args\<close> took for a dataset.
\<close>

definition call_set_link_value :: "cell_class option \<Rightarrow> string \<Rightarrow> args \<Rightarrow> error + pyval" where
  "call_set_link_value cls key as =
     (case cls of
        None \<Rightarrow> Inl Attribute_Error
      | Some c \<Rightarrow>
          if ''C'' \<in> fst ` set as \<or> ''key'' \<in> fst ` set as then Inl Call_TypeError
          else set_link_value c key as)"

definition call_set_link_distribution :: "cell_class option \<Rightarrow> args \<Rightarrow> error + pyval" where
  "call_set_link_distribution cls as =
     (case cls of
        None \<Rightarrow> Inl Attribute_Error
      | Some c \<Rightarrow>
          if ''C'' \<in> fst ` set as then Inl Call_TypeError
          else (case map_of as ''key'' of
                  None \<Rightarrow> Inl Call_TypeError
                | Some key \<Rightarrow> set_link_distribution c key (AList.delete ''key'' as)))"

text \<open>
  \<^verbatim>\<open>Link.Node.__init__(self, C, key)\<close>. The test of the key comes first; the last
  statement reads \<^verbatim>\<open>C._distribution\<close>, which raises \<^verbatim>\<open>AttributeError\<close> for a class that
  does not declare the attribute.
\<close>

definition Node_init :: "cell_class option \<Rightarrow> string \<Rightarrow> error + node" where
  "Node_init cls key =
     (case cls of
        None \<Rightarrow> Inl Attribute_Error
      | Some c \<Rightarrow>
          (case map_of (dim_map c) key of
             None \<Rightarrow> Inl No_Link_Key
           | Some dk \<Rightarrow>
               (case class_distribution c of
                  None \<Rightarrow> Inl Attribute_Error
                | Some d \<Rightarrow> Inr \<lparr>C = c, link_key = key, dim_key = dk, dist_key = d\<rparr>)))"

text \<open>The local function \<^verbatim>\<open>get_args(name)\<close> of \<^verbatim>\<open>Link.__init__\<close>.\<close>

definition get_args :: "manager \<Rightarrow> string \<Rightarrow> error + (string \<times> string \<times> cell_class option)" where
  "get_args cm nm =
     (if hd (split_dot nm) \<in> fst ` set (datasets cm) then
        (case split_arg nm of (name', key) \<Rightarrow> Inr (name', key, None))
      else if join_dot (butlast (split_dot nm)) \<in> fst ` set (cell_args cm) then
        (case split_arg nm of (name', key) \<Rightarrow>
           (case map_of (cell_args cm) name' of
              None \<Rightarrow> Inl Bare_KeyError
            | Some as \<Rightarrow>
                (case map_of as ''cell_type'' of
                   None \<Rightarrow> Inl Bare_KeyError
                 | Some ct \<Rightarrow>
                     and_then (resolve_class (classes cm) ct)
                       (\<lambda>c. Inr (name', key, Some c)))))
      else Inl Reference_Not_Found)"

text \<open>
  Lines 72--82: which endpoint is the dataset. The result is
  \<^verbatim>\<open>(dataset_name, dataset_key)\<close>, or \<open>None\<close> when both stay \<^verbatim>\<open>None\<close>.
\<close>

definition choose_dataset ::
  "manager \<Rightarrow> string \<Rightarrow> string \<Rightarrow> string \<Rightarrow> string \<Rightarrow> error + (string \<times> string) option" where
  "choose_dataset cm f_name f_key t_name t_key =
     (if f_name \<in> fst ` set (datasets cm) then
        (if t_name \<in> fst ` set (datasets cm) then Inl Invalid_Link
         else Inr (Some (f_name, f_key)))
      else if t_name \<in> fst ` set (datasets cm) then Inr (Some (t_name, t_key))
      else Inr None)"

text \<open>
  Lines 84--105: the value and the distribution. With a dataset endpoint both are read
  from the dataset's tables. Otherwise four guarded attempts, target before source;
  each starts from what the previous one left (\<^verbatim>\<open>None\<close> at first).
\<close>

definition resolve_link ::
  "manager \<Rightarrow> (string \<times> string) option \<Rightarrow> string \<times> string \<times> cell_class option \<Rightarrow>
   string \<times> string \<times> cell_class option \<Rightarrow> error + (pyval \<times> pyval)" where
  "resolve_link cm ds fe te =
     (case (fe, te) of ((f_name, f_key, f_class), (t_name, t_key, t_class)) \<Rightarrow>
       (case ds of
          Some (dataset_name, dataset_key) \<Rightarrow>
            (case map_of (datasets cm) dataset_name of
               None \<Rightarrow> Inl Bare_KeyError
             | Some d \<Rightarrow>
                 (case map_of (dims d) dataset_key of
                    None \<Rightarrow> Inl Bare_KeyError
                  | Some v \<Rightarrow>
                      (case map_of (distributions d) dataset_key of
                         None \<Rightarrow> Inl Bare_KeyError
                       | Some dv \<Rightarrow> Inr (v, dv))))
        | None \<Rightarrow>
            (case map_of (cell_args cm) t_name of
               None \<Rightarrow> Inl Bare_KeyError
             | Some t_args \<Rightarrow>
                 (case map_of (cell_args cm) f_name of
                    None \<Rightarrow> Inl Bare_KeyError
                  | Some f_args \<Rightarrow>
                      and_then (except_ValueError (call_set_link_value t_class t_key t_args) VNone)
                        (\<lambda>v1.
                      and_then (except_ValueError (call_set_link_value f_class f_key f_args) v1)
                        (\<lambda>v2.
                      and_then (except_ValueError (call_set_link_distribution t_class t_args) VNone)
                        (\<lambda>d1.
                      and_then (except_ValueError (call_set_link_distribution f_class f_args) d1)
                        (\<lambda>d2. Inr (v2, d2)))))))))"

text \<open>
  Lines 111--114: the nodes. \<^verbatim>\<open>f_name != dataset_name\<close> holds whenever
  \<^verbatim>\<open>dataset_name\<close> is \<^verbatim>\<open>None\<close>. \<^verbatim>\<open>self.nodes\<close> is a dictionary, so a second entry
  under the same name replaces the first.
\<close>

definition register_nodes ::
  "(string \<times> string) option \<Rightarrow> string \<times> string \<times> cell_class option \<Rightarrow>
   string \<times> string \<times> cell_class option \<Rightarrow> error + (string \<times> node) list" where
  "register_nodes ds fe te =
     (case (fe, te) of ((f_name, f_key, f_class), (t_name, t_key, t_class)) \<Rightarrow>
        and_then
          (if Some f_name \<noteq> map_option fst ds
           then and_then (Node_init f_class f_key) (\<lambda>n. Inr (AList.update f_name n []))
           else Inr [])
          (\<lambda>nodes1.
             if Some t_name \<noteq> map_option fst ds
             then and_then (Node_init t_class t_key) (\<lambda>n. Inr (AList.update t_name n nodes1))
             else Inr nodes1))"

text \<open>
  \<^verbatim>\<open>Link.__init__(self, cm, f, t)\<close>. The manager changes only in the last statement, so a
  failed construction leaves it as it was.
\<close>

definition Link_init :: "manager \<Rightarrow> string \<Rightarrow> string \<Rightarrow> error + (link \<times> manager)" where
  "Link_init cm f t =
     and_then (get_args cm f) (\<lambda>fe.
     and_then (get_args cm t) (\<lambda>te.
     and_then (choose_dataset cm (fst fe) (fst (snd fe)) (fst te) (fst (snd te))) (\<lambda>ds.
     and_then (resolve_link cm ds fe te) (\<lambda>(v, d).
       if v = VNone then Inl Unresolvable_Link
       else and_then (register_nodes ds fe te) (\<lambda>ns.
         let self = \<lparr>link_name = f @ ''->'' @ t, link_value = v,
                     link_distribution = d, link_nodes = ns\<rparr>
         in Inr (self, cm\<lparr>links := links cm @ [self]\<rparr>))))))"

text \<open>\<^verbatim>\<open>Link.query(self, name, key)\<close>; \<^verbatim>\<open>node.dist_key[1:]\<close> is a \<^verbatim>\<open>TypeError\<close> on \<^verbatim>\<open>None\<close>.\<close>

definition query :: "link \<Rightarrow> string \<Rightarrow> string \<Rightarrow> error + pyval" where
  "query self nm key =
     (case map_of (link_nodes self) nm of
        None \<Rightarrow> Inl No_Such_Node
      | Some nd \<Rightarrow>
          if key = dim_key nd then
            and_then (get_link_value (C nd) self (link_key nd))
              (\<lambda>(vk, v). if v = VNone then Inl Bare_ValueError else Inr v)
          else if key = ''cell_type'' then Inr (link_distribution self)
          else (case dist_key nd of
                  None \<Rightarrow> Inl None_TypeError
                | Some dk \<Rightarrow>
                    if key = drop 1 dk then Inr (link_distribution self)
                    else Inl Unsupported_Key))"

section \<open>The manager (cortex/__init__.py)\<close>

text \<open>
  A manager method that raises leaves behind whatever it had already written, so such a
  method returns the exception (or \<open>None\<close>) together with the manager.
\<close>

text \<open>
  The loop of \<^verbatim>\<open>Manager.match_args\<close> over \<^verbatim>\<open>kwargs.iteritems()\<close>, on the dictionary
  \<^verbatim>\<open>args\<close>. The message of the \<^verbatim>\<open>ValueError\<close> has the malformed directive \<^verbatim>\<open>% v\<close>, so it
  is the formatting that raises there: a \<^verbatim>\<open>ValueError\<close> as well.
  \<^verbatim>\<open>Link\<close> defines no \<^verbatim>\<open>__eq__\<close>, so \<^verbatim>\<open>!=\<close> on links is object identity; the comparison
  is written as inequality of values here, which is the same wherever a value is
  compared with the very object that was just stored.
\<close>

fun match_loop :: "bool \<Rightarrow> args \<Rightarrow> args \<Rightarrow> error option \<times> args" where
  "match_loop fail_on_mismatch as [] = (None, as)"
| "match_loop fail_on_mismatch as ((k, v) # kwargs) =
     (if k \<notin> fst ` set as \<and> fail_on_mismatch then (Some Unknown_Argument, as)
      else
        let as' = (if k \<notin> fst ` set as then AList.update k v as else as) in
        if map_of as' k \<noteq> Some (Val VNone) \<and> map_of as' k \<noteq> Some v
        then (Some Argument_Mismatch, as')
        else match_loop fail_on_mismatch as' kwargs)"

text \<open>
  \<^verbatim>\<open>Manager.match_args(self, cell_name, **kwargs)\<close>. The \<^verbatim>\<open>else\<close> of the first test
  assigns a fresh empty dictionary to \<^verbatim>\<open>self.cell_args[cell_name]\<close> in every case that
  does not raise; \<^verbatim>\<open>args\<close> is that dictionary, so the loop's writes land in the table.
\<close>

definition match_args :: "manager \<Rightarrow> string \<Rightarrow> args \<Rightarrow> error option \<times> manager" where
  "match_args cm cell_name kwargs =
     (let fail_on_mismatch = (cell_name \<in> fst ` set (cells cm)) in
      if fail_on_mismatch \<and> cell_name \<notin> fst ` set (cell_args cm)
      then (Some Args_Not_Found, cm)
      else
        let cm1 = cm\<lparr>cell_args := AList.update cell_name [] (cell_args cm)\<rparr> in
        (case map_of (cell_args cm1) cell_name of
           None \<Rightarrow> (Some Bare_KeyError, cm1)
         | Some as \<Rightarrow>
             (case match_loop fail_on_mismatch as kwargs of
                (r, as') \<Rightarrow> (r, cm1\<lparr>cell_args := AList.update cell_name as' (cell_args cm1)\<rparr>))))"

text \<open>\<^verbatim>\<open>d.get(k, None) is None\<close> on an argument record.\<close>

definition unset :: "args \<Rightarrow> string \<Rightarrow> bool" where
  "unset as k = (case map_of as k of None \<Rightarrow> True | Some v \<Rightarrow> v = Val VNone)"

text \<open>
  Lines 277--283 of \<^verbatim>\<open>Manager.add_link\<close>: the distribution argument \<open>dk\<close> of a node is
  \<^verbatim>\<open>None\<close>, the node's \<^verbatim>\<open>dist_key\<close> without its leading \<^verbatim>\<open>&\<close>, or \<^verbatim>\<open>cell_type\<close>.
\<close>

definition distribution_key :: "node \<Rightarrow> string option" where
  "distribution_key nd =
     (case dist_key nd of
        None \<Rightarrow> None
      | Some s \<Rightarrow> if take 1 s = ''&'' then Some (drop 1 s) else Some ''cell_type'')"

text \<open>
  The test \<^verbatim>\<open>node.C._distribution is not None\<close> of line 286: the class declares a
  distribution requirement that is not \<^verbatim>\<open>None\<close>. Reading the attribute of a class that
  does not declare it raises \<^verbatim>\<open>AttributeError\<close>.
\<close>

definition declares_distribution :: "cell_class \<Rightarrow> error + bool" where
  "declares_distribution c =
     (case class_distribution c of
        None \<Rightarrow> Inl Attribute_Error
      | Some d \<Rightarrow> Inr (d \<noteq> None))"

text \<open>
  The writes of one pass of the loop into the record \<^verbatim>\<open>self.cell_args[name]\<close>: the
  dimension argument first (lines 275--276), then the distribution argument (lines
  285--287). \<^verbatim>\<open>and\<close> evaluates \<^verbatim>\<open>node.C._distribution\<close> only when the argument \<open>dk\<close> is
  unset; \<open>dk = None\<close> is no key of a record, so it is unset. A write under \<open>dk = None\<close>
  would add the key \<^verbatim>\<open>None\<close>, which is no argument name, and leave every entry of the
  record as it is; it takes a node whose \<^verbatim>\<open>dist_key\<close> is \<^verbatim>\<open>None\<close> while its class
  declares another value, and \<^verbatim>\<open>Link.Node.__init__\<close> builds no such node.
\<close>

definition backfilled :: "link \<Rightarrow> node \<Rightarrow> args \<Rightarrow> error + args" where
  "backfilled l nd as =
     (let as1 = (if unset as (dim_key nd)
                 then AList.update (dim_key nd) (LinkRef l) as else as);
          dk = distribution_key nd
      in if (case dk of None \<Rightarrow> True | Some k \<Rightarrow> unset as1 k)
         then and_then (declares_distribution (C nd))
                (\<lambda>declared.
                   if declared
                   then (case dk of
                           None \<Rightarrow> Inr as1
                         | Some k \<Rightarrow> Inr (AList.update k (LinkRef l) as1))
                   else Inr as1)
         else Inr as1)"

text \<open>The body of the loop of \<^verbatim>\<open>Manager.add_link\<close> for one \<^verbatim>\<open>(name, node)\<close>.\<close>

definition backfill :: "manager \<Rightarrow> link \<Rightarrow> string \<Rightarrow> node \<Rightarrow> error + manager" where
  "backfill cm l nm nd =
     (if nm \<in> fst ` set (datasets cm) then Inr cm
      else
        (case map_of (cell_args cm) nm of
           None \<Rightarrow> Inl Bare_KeyError
         | Some as \<Rightarrow>
             and_then (backfilled l nd as)
               (\<lambda>as'. Inr (cm\<lparr>cell_args := AList.update nm as' (cell_args cm)\<rparr>))))"

fun backfill_all :: "manager \<Rightarrow> link \<Rightarrow> (string \<times> node) list \<Rightarrow> error + manager" where
  "backfill_all cm l [] = Inr cm"
| "backfill_all cm l ((nm, nd) # ns) =
     and_then (backfill cm l nm nd) (\<lambda>cm'. backfill_all cm' l ns)"

text \<open>\<^verbatim>\<open>Manager.add_link(self, f, t)\<close>.\<close>

definition add_link :: "manager \<Rightarrow> string \<Rightarrow> string \<Rightarrow> error + manager" where
  "add_link cm f t =
     and_then (Link_init cm f t) (\<lambda>(l, cm'). backfill_all cm' l (link_nodes l))"

text \<open>
  The loop of \<^verbatim>\<open>Manager.build_cell\<close> over \<^verbatim>\<open>kwargs.keys()\<close>: every \<^verbatim>\<open>Link\<close> placeholder
  is replaced, in the record itself, by what the link's \<^verbatim>\<open>query\<close> returns.
\<close>

fun resolve_placeholders :: "string \<Rightarrow> args \<Rightarrow> string list \<Rightarrow> error option \<times> args" where
  "resolve_placeholders nm kwargs [] = (None, kwargs)"
| "resolve_placeholders nm kwargs (k # ks) =
     (case map_of kwargs k of
        None \<Rightarrow> (Some Bare_KeyError, kwargs)
      | Some (Val v) \<Rightarrow> resolve_placeholders nm kwargs ks
      | Some (LinkRef l) \<Rightarrow>
          (case query l nm k of
             Inl e \<Rightarrow> (Some e, kwargs)
           | Inr v \<Rightarrow> resolve_placeholders nm (AList.update k (Val v) kwargs) ks))"

text \<open>
  A constructor \<^verbatim>\<open>C(*reqs.values(), **options)\<close>: the class, the positional and the
  keyword arguments, and the manager it registers the new cell with. The constructors
  of the concrete layers build tensors and are not modelled; they are a parameter.
\<close>

type_synonym constructor =
  "cell_class \<Rightarrow> arg list \<Rightarrow> args \<Rightarrow> manager \<Rightarrow> error option \<times> manager"

text \<open>
  \<^verbatim>\<open>Cell.factory(C, cell_type=None, **kwargs)\<close> as \<^verbatim>\<open>build_cell\<close> calls it,
  \<^verbatim>\<open>C.factory(name=name, **kwargs)\<close>: a record with an entry \<^verbatim>\<open>name\<close> or \<^verbatim>\<open>C\<close> gives a
  parameter two values; the entry \<^verbatim>\<open>cell_type\<close> binds to the parameter of that name.
\<close>

definition factory ::
  "constructor \<Rightarrow> cell_class \<Rightarrow> string \<Rightarrow> args \<Rightarrow> manager \<Rightarrow> error option \<times> manager" where
  "factory ctor cls nm as cm =
     (if ''C'' \<in> fst ` set as \<or> ''name'' \<in> fst ` set as then (Some Call_TypeError, cm)
      else
        let kwargs = (''name'', Val (VStr nm)) # AList.delete ''cell_type'' as;
            reqs = filter (\<lambda>k. k \<in> fst ` set kwargs) (required cls);
            options = filter (\<lambda>(k, v). k \<notin> set (required cls)) kwargs
        in
          if list_ex (\<lambda>req. if req \<in> set reqs then map_of kwargs req = Some (Val VNone)
                             else True) (required cls)
          then (Some Missing_Required, cm)
          else ctor cls (map (\<lambda>k. the (map_of kwargs k)) reqs) options cm)"

text \<open>\<^verbatim>\<open>Manager.build_cell(self, name)\<close>.\<close>

definition build_cell :: "constructor \<Rightarrow> manager \<Rightarrow> string \<Rightarrow> error option \<times> manager" where
  "build_cell ctor cm nm =
     (case map_of (cell_args cm) nm of
        None \<Rightarrow> (Some Bare_KeyError, cm)
      | Some kwargs \<Rightarrow>
          (case map_of kwargs ''cell_type'' of
             None \<Rightarrow> (Some Bare_KeyError, cm)
           | Some ct \<Rightarrow>
               (case resolve_class (classes cm) ct of
                  Inl e \<Rightarrow> (Some e, cm)
                | Inr cls \<Rightarrow>
                    (case resolve_placeholders nm kwargs (map fst kwargs) of
                       (r, kwargs') \<Rightarrow>
                         let cm' = cm\<lparr>cell_args := AList.update nm kwargs' (cell_args cm)\<rparr> in
                         (case r of
                            Some e \<Rightarrow> (Some e, cm')
                          | None \<Rightarrow> factory ctor cls nm kwargs' cm')))))"

text \<open>
  The \<^verbatim>\<open>else\<close> branch of \<^verbatim>\<open>Manager.build\<close>: the loop over \<^verbatim>\<open>self.cell_args.iteritems()\<close>.
  An \<^verbatim>\<open>OrderedDict\<close> iterator walks the dictionary's linked list, so entries that a
  constructor appends during the loop are visited too, and the loop need not end:
  position \<open>i\<close> is read from the table as it is when the iterator gets there.
\<close>

partial_function (option) build_all ::
  "constructor \<Rightarrow> manager \<Rightarrow> nat \<Rightarrow> (error option \<times> manager) option" where
  "build_all ctor cm i =
     (if i < length (cell_args cm) then
        (let k = fst (cell_args cm ! i) in
         if k \<in> fst ` set (cells cm) then build_all ctor cm (Suc i)
         else
           (case build_cell ctor cm k of
              (Some e, cm') \<Rightarrow> Some (Some e, cm')
            | (None, cm') \<Rightarrow> build_all ctor cm' (Suc i)))
      else Some (None, cm))"

declare build_all.simps [code]

text \<open>\<^verbatim>\<open>Manager.build(self, name=None)\<close>.\<close>

definition build ::
  "constructor \<Rightarrow> manager \<Rightarrow> string option \<Rightarrow> (error option \<times> manager) option" where
  "build ctor cm nm =
     (if nm \<noteq> None \<and> the nm \<notin> fst ` set (cells cm)
      then Some (build_cell ctor cm (the nm))
      else build_all ctor cm 0)"

section \<open>Cells: parameter counts, shared handles, parameter slices (models/cell.py)\<close>

text \<open>
  Lines 192--197 of \<^verbatim>\<open>Cell.__init__\<close>: \<^verbatim>\<open>n_params\<close>, the loop over
  \<^verbatim>\<open>self.params.values()\<close> with its accumulator.
\<close>

fun param_size :: "param \<Rightarrow> nat" where
  "param_size (ArrList ps) = length ps"
| "param_size (Arr a) = 1"

fun count_params :: "(string \<times> param) list \<Rightarrow> nat \<Rightarrow> nat" where
  "count_params [] n = n"
| "count_params ((k, p) # ps) n = count_params ps (n + param_size p)"

text \<open>
  Lines 198--206: \<^verbatim>\<open>n_component_params\<close>. What one component adds: nothing for \<^verbatim>\<open>None\<close>,
  the \<^verbatim>\<open>total_params\<close> of every member for a list, its own \<^verbatim>\<open>total_params\<close> for a cell.
  An attribute that is no cell has no \<^verbatim>\<open>total_params\<close>.
\<close>

fun component_size :: "attr \<Rightarrow> error + nat" where
  "component_size NoneAttr = Inr 0"
| "component_size (Comps cs) = Inr (sum_list (map total_params cs))"
| "component_size (Comp c) = Inr (total_params c)"
| "component_size (Handles hs) = (if hs = [] then Inr 0 else Inl Attribute_Error)"
| "component_size (Handle h) = Inl Attribute_Error"

fun count_components :: "(string \<times> attr) list \<Rightarrow> string list \<Rightarrow> nat \<Rightarrow> error + nat" where
  "count_components d [] n = Inr n"
| "count_components d (key # keys) n =
     (case map_of d key of
        None \<Rightarrow> Inl Bare_KeyError
      | Some component \<Rightarrow>
          (case component_size component of
             Inl e \<Rightarrow> Inl e
           | Inr l \<Rightarrow> count_components d keys (n + l)))"

text \<open>Lines 192--207 together: the three counts are written, nothing else.\<close>

definition count_all :: "cell \<Rightarrow> error + cell" where
  "count_all c =
     (case params c of
        None \<Rightarrow> Inl Attribute_Error
      | Some ps \<Rightarrow>
          (case count_components (dict c) (component_keys c) 0 of
             Inl e \<Rightarrow> Inl e
           | Inr m \<Rightarrow>
               Inr (Cell (cname c) (params c) (component_keys c) (dict c)
                      (count_params ps 0) m (count_params ps 0 + m) (param_keys c))))"

text \<open>
  The registration of one parameter in \<^verbatim>\<open>Cell.set_tparams\<close> (lines 383--387 and
  392--396): a name that is not yet in \<^verbatim>\<open>manager.tparams\<close> gets a new shared handle,
  which is entered in the table; a name that is there yields the handle of the table.
\<close>

definition shared :: "manager \<Rightarrow> string \<Rightarrow> ndarray \<Rightarrow> handle \<times> manager" where
  "shared m nm v =
     (case map_of (tparams m) nm of
        None \<Rightarrow>
          (let tp = Shared (next_id m) nm v
           in (tp, m\<lparr>tparams := AList.update nm tp (tparams m), next_id := Suc (next_id m)\<rparr>))
      | Some tp \<Rightarrow> (tp, m))"

text \<open>
  Lines 380--389: the members of a list-valued group \<open>k\<close>, from index \<open>i\<close> on. The
  result is the handles appended to \<^verbatim>\<open>self.__dict__[k]\<close>, the keys appended to
  \<^verbatim>\<open>self.param_keys\<close>, and the manager.
\<close>

fun set_tparams_list ::
  "manager \<Rightarrow> string \<Rightarrow> string \<Rightarrow> nat \<Rightarrow> ndarray list \<Rightarrow> handle list \<times> string list \<times> manager" where
  "set_tparams_list m cn k i [] = ([], [], m)"
| "set_tparams_list m cn k i (pp # pps) =
     (let kk = k @ ''['' @ show_nat i @ '']'' in
      case shared m (p_name cn kk) pp of
        (tp, m1) \<Rightarrow>
          (case set_tparams_list m1 cn k (Suc i) pps of
             (tps, kks, m2) \<Rightarrow> (tp # tps, kk # kks, m2)))"

text \<open>Lines 377--398: the loop over \<^verbatim>\<open>self.params.iteritems()\<close>.\<close>

fun set_tparams_loop ::
  "manager \<Rightarrow> string \<Rightarrow> (string \<times> param) list \<Rightarrow> (string \<times> attr) list \<Rightarrow> string list \<Rightarrow>
   (string \<times> attr) list \<times> string list \<times> manager" where
  "set_tparams_loop m cn [] d pk = (d, pk, m)"
| "set_tparams_loop m cn ((k, ArrList p) # ps) d pk =
     (case set_tparams_list m cn k 0 p of
        (tps, kks, m1) \<Rightarrow>
          set_tparams_loop m1 cn ps (AList.update k (Handles tps) d) (pk @ kks))"
| "set_tparams_loop m cn ((k, Arr p) # ps) d pk =
     (case shared m (p_name cn k) p of
        (tp, m1) \<Rightarrow> set_tparams_loop m1 cn ps (AList.update k (Handle tp) d) (pk @ [k]))"

text \<open>\<^verbatim>\<open>Cell.set_tparams(self)\<close>, on the manager the cell belongs to.\<close>

definition set_tparams :: "manager \<Rightarrow> cell \<Rightarrow> error + (cell \<times> manager)" where
  "set_tparams m c =
     (case params c of
        None \<Rightarrow> Inl Bare_ValueError
      | Some ps \<Rightarrow>
          (case set_tparams_loop m (cname c) ps (dict c) [] of
             (d, pk, m') \<Rightarrow>
               Inr (Cell (cname c) (params c) (component_keys c) d
                      (n_params c) (n_component_params c) (total_params c) pk, m')))"

text \<open>
  Lines 192--208 of \<^verbatim>\<open>Cell.__init__\<close>: the counts, then \<^verbatim>\<open>set_tparams\<close>. The cell comes
  with \<^verbatim>\<open>params\<close> (from \<^verbatim>\<open>init_params\<close>) and its components (from \<^verbatim>\<open>set_components\<close>)
  in place; those steps are specific to each layer and are not modelled.
\<close>

definition Cell_init :: "manager \<Rightarrow> cell \<Rightarrow> error + (cell \<times> manager)" where
  "Cell_init m c = and_then (count_all c) (set_tparams m)"

text \<open>\<^verbatim>\<open>[self.__dict__[k] for k in self.param_keys]\<close>.\<close>

fun own_params :: "(string \<times> attr) list \<Rightarrow> string list \<Rightarrow> error + attr list" where
  "own_params d [] = Inr []"
| "own_params d (k # ks) =
     (case map_of d k of
        None \<Rightarrow> Inl Bare_KeyError
      | Some a \<Rightarrow> (case own_params d ks of Inl e \<Rightarrow> Inl e | Inr as \<Rightarrow> Inr (a # as)))"

lemma size_lookup_attr:
  "map_of d k = Some a \<Longrightarrow> size a < Suc (size_list (size_prod (\<lambda>_. 0) size) d)"
  by (induction d) (auto split: if_splits)

text \<open>
  \<^verbatim>\<open>Cell.get_params(self, params=None)\<close>: the cell's own entries, then the parameters of
  every component in the order of \<^verbatim>\<open>component_keys\<close>, a list-valued component member
  by member. The weight-noise branch (lines 402--416) is left out: it adds random
  floating-point tensors, writes them to \<^verbatim>\<open>self.params\<close> only, and does not touch the
  list that is returned.
\<close>

function get_params :: "cell \<Rightarrow> error + attr list"
  and get_params_components :: "cell \<Rightarrow> string list \<Rightarrow> error + attr list"
  and get_params_members :: "cell list \<Rightarrow> error + attr list" where
  "get_params c =
     (case own_params (dict c) (param_keys c) of
        Inl e \<Rightarrow> Inl e
      | Inr ps \<Rightarrow>
          (case get_params_components c (component_keys c) of
             Inl e \<Rightarrow> Inl e
           | Inr qs \<Rightarrow> Inr (ps @ qs)))"
| "get_params_components c [] = Inr []"
| "get_params_components c (key # keys) =
     (case map_of (dict c) key of
        None \<Rightarrow> Inl Bare_KeyError
      | Some NoneAttr \<Rightarrow> get_params_components c keys
      | Some (Comps cs) \<Rightarrow>
          (case get_params_members cs of
             Inl e \<Rightarrow> Inl e
           | Inr ps \<Rightarrow>
               (case get_params_components c keys of
                  Inl e \<Rightarrow> Inl e
                | Inr qs \<Rightarrow> Inr (ps @ qs)))
      | Some (Comp c') \<Rightarrow>
          (case get_params c' of
             Inl e \<Rightarrow> Inl e
           | Inr ps \<Rightarrow>
               (case get_params_components c keys of
                  Inl e \<Rightarrow> Inl e
                | Inr qs \<Rightarrow> Inr (ps @ qs)))
      | Some (Handles hs) \<Rightarrow>
          (if hs = [] then get_params_components c keys else Inl Attribute_Error)
      | Some (Handle h) \<Rightarrow> Inl Attribute_Error)"
| "get_params_members [] = Inr []"
| "get_params_members (c # cs) =
     (case get_params c of
        Inl e \<Rightarrow> Inl e
      | Inr ps \<Rightarrow>
          (case get_params_members cs of
             Inl e \<Rightarrow> Inl e
           | Inr qs \<Rightarrow> Inr (ps @ qs)))"
  by pat_completeness auto
termination
  apply (relation "measures
    [\<lambda>x. case x of Inl c \<Rightarrow> size c | Inr (Inl (c, ks)) \<Rightarrow> size c
          | Inr (Inr cs) \<Rightarrow> size_list size cs,
     \<lambda>x. case x of Inl c \<Rightarrow> 1 | Inr (Inl (c, ks)) \<Rightarrow> 0 | Inr (Inr cs) \<Rightarrow> 0,
     \<lambda>x. case x of Inl c \<Rightarrow> 0 | Inr (Inl (c, ks)) \<Rightarrow> length ks | Inr (Inr cs) \<Rightarrow> 0]")
          apply simp_all
   apply (case_tac c; simp; drule size_lookup_attr; simp)+
  done

text \<open>
  The loops of \<^verbatim>\<open>Cell.select_params\<close> on the state \<^verbatim>\<open>(start, end, found)\<close>. The inner
  loop runs over the members of a list-valued component \<open>k\<close>, addressed as
  \<^verbatim>\<open><k>_<i>\<close>; its \<^verbatim>\<open>break\<close> leaves the inner loop only.
\<close>

fun select_members ::
  "string \<Rightarrow> string \<Rightarrow> cell list \<Rightarrow> nat \<Rightarrow> nat \<times> nat \<times> bool \<Rightarrow> nat \<times> nat \<times> bool" where
  "select_members key k [] i st = st"
| "select_members key k (c # cs) i (start, end, found) =
     (let l = total_params c in
      if k @ ''_'' @ show_nat i = key then (start, start + l, True)
      else select_members key k cs (Suc i) (start + l, end, found))"

fun select_loop ::
  "(string \<times> attr) list \<Rightarrow> string \<Rightarrow> string list \<Rightarrow> nat \<times> nat \<times> bool \<Rightarrow>
   error + (nat \<times> nat \<times> bool)" where
  "select_loop d key [] st = Inr st"
| "select_loop d key (k # ks) (start, end, found) =
     (case map_of d k of
        None \<Rightarrow> Inl Bare_KeyError
      | Some NoneAttr \<Rightarrow> select_loop d key ks (start, end, found)
      | Some (Comps cs) \<Rightarrow>
          select_loop d key ks (select_members key k cs 0 (start, end, found))
      | Some (Comp c) \<Rightarrow>
          (let l = total_params c in
           if k = key then Inr (start, start + l, True)
           else select_loop d key ks (start + l, end, found))
      | Some (Handles hs) \<Rightarrow>
          (if hs = [] then select_loop d key ks (start, end, found) else Inl Attribute_Error)
      | Some (Handle h) \<Rightarrow> Inl Attribute_Error)"

text \<open>Lines 432--461: the bounds \<^verbatim>\<open>(start, end)\<close> of the slice.\<close>

definition select_range :: "cell \<Rightarrow> string option \<Rightarrow> error + (nat \<times> nat)" where
  "select_range c key =
     (case key of
        None \<Rightarrow> Inr (0, n_params c)
      | Some key' \<Rightarrow>
          (case select_loop (dict c) key' (component_keys c) (n_params c, 0, False) of
             Inl e \<Rightarrow> Inl e
           | Inr (start, end, found) \<Rightarrow>
               if \<not> found then Inl Component_Not_Found else Inr (start, end)))"

text \<open>\<^verbatim>\<open>params[start:end]\<close> for indices that are not negative.\<close>

definition slice :: "nat \<Rightarrow> nat \<Rightarrow> 'a list \<Rightarrow> 'a list" where
  "slice start end xs = take (end - start) (drop start xs)"

text \<open>\<^verbatim>\<open>Cell.select_params(self, key, *params)\<close>.\<close>

definition select_params :: "cell \<Rightarrow> string option \<Rightarrow> 'a list \<Rightarrow> error + 'a list" where
  "select_params c key ps =
     (case select_range c key of
        Inl e \<Rightarrow> Inl e
      | Inr (start, end) \<Rightarrow> Inr (slice start end ps))"

subsection \<open>The counts as the specification words them\<close>

text \<open>
  The direct sub-components of a cell: for every component key in turn, the cell stored
  under it, or every member of the list stored under it; \<^verbatim>\<open>None\<close> contributes nothing.
  \<open>own_param_count\<close> counts a list-valued parameter group by its length and every other
  parameter as one.
\<close>

fun members :: "attr \<Rightarrow> cell list" where
  "members (Comp c) = [c]"
| "members (Comps cs) = cs"
| "members a = []"

definition components :: "cell \<Rightarrow> cell list" where
  "components c =
     concat (map (\<lambda>key. case map_of (dict c) key of None \<Rightarrow> [] | Some a \<Rightarrow> members a)
                 (component_keys c))"

definition own_param_count :: "cell \<Rightarrow> nat" where
  "own_param_count c =
     (case params c of None \<Rightarrow> 0 | Some ps \<Rightarrow> sum_list (map (\<lambda>(k, p). param_size p) ps))"

subsection \<open>The methods that run on a constructed cell\<close>



subsection \<open>Notions for the statements about handles and slices\<close>



text \<open>
  The keys by which \<^verbatim>\<open>select_params\<close> addresses the components: the key of a component
  that is one cell, \<^verbatim>\<open><key>_<i>\<close> for member \<open>i\<close> of a list-valued one. A key that is
  none of these finds nothing, and the call raises.
\<close>

fun component_names :: "string \<Rightarrow> attr \<Rightarrow> string list" where
  "component_names k (Comp c) = [k]"
| "component_names k (Comps cs) = map (\<lambda>i. k @ ''_'' @ show_nat i) [0..<length cs]"
| "component_names k a = []"

definition addressable :: "(string \<times> attr) list \<Rightarrow> string list \<Rightarrow> string list" where
  "addressable d ks =
     concat (map (\<lambda>k. case map_of d k of None \<Rightarrow> [] | Some a \<Rightarrow> component_names k a) ks)"

section \<open>Example configurations\<close>

text \<open>
  \<^verbatim>\<open>RNNInitializer\<close> and \<^verbatim>\<open>GenRNN\<close> with the tables of models/rnn/rnn.py. Neither
  declares \<^verbatim>\<open>_distribution\<close>, and neither does their base class \<^verbatim>\<open>Cell\<close>.
\<close>

definition RNNInitializer :: cell_class where
  "RNNInitializer =
     \<lparr>dim_map = [(''input'', ''dim_in''), (''output'', ''dim_out'')], dist_map = [],
      class_distribution = None, required = [''dim_in'', ''dim_out'']\<rparr>"

definition GenRNN :: cell_class where
  "GenRNN =
     \<lparr>dim_map = [(''input'', ''dim_in''), (''output'', ''dim_in''), (''P'', ''dim_in''),
                 (''samples'', ''dim_in'')],
      dist_map = [(''P'', ''distribution_type'')],
      class_distribution = None, required = [''distribution_type'']\<rparr>"

text \<open>
  Two classes that are not among the sources, for the statements about links that are
  constructed: subclasses of the two above whose bodies declare the attribute,
  \<^verbatim>\<open>_distribution = None\<close> for \<^verbatim>\<open>DenseInitializer\<close> and
  \<^verbatim>\<open>_distribution = '&distribution_type'\<close> for \<^verbatim>\<open>DensityRNN\<close>.
\<close>

definition DenseInitializer :: cell_class where
  "DenseInitializer = RNNInitializer\<lparr>class_distribution := Some None\<rparr>"

definition DensityRNN :: cell_class where
  "DensityRNN = GenRNN\<lparr>class_distribution := Some (Some ''&distribution_type'')\<rparr>"

definition built_cell :: cell where
  "built_cell = Cell ''init'' (Some []) [] [] 0 0 0 []"

definition recorded_args :: args where
  "recorded_args =
     [(''cell_type'', Val (VStr ''RNNInitializer'')), (''dim_in'', Val (VInt 784))]"

text \<open>A manager in which the cell \<^verbatim>\<open>init\<close> is built, and one in which it is only declared.\<close>

definition built_manager :: manager where
  "built_manager =
     \<lparr>cells = [(''init'', built_cell)], cell_args = [(''init'', recorded_args)], links = [],
      classes = [(''RNNInitializer'', RNNInitializer), (''GenRNN'', GenRNN)],
      datasets = [], tparams = [], next_id = 0\<rparr>"

definition pending_manager :: manager where
  "pending_manager = built_manager\<lparr>cells := []\<rparr>"

text \<open>
  A manager with three datasets and four declared cells: \<^verbatim>\<open>src\<close> and \<^verbatim>\<open>dst\<close> are of the
  class \<^verbatim>\<open>RNNInitializer\<close>, \<^verbatim>\<open>src\<close> knows its output dimension and \<^verbatim>\<open>dst\<close> knows no
  dimension; \<^verbatim>\<open>init\<close> is a \<^verbatim>\<open>DenseInitializer\<close> with an input dimension of its own, and
  \<^verbatim>\<open>gen\<close> is a \<^verbatim>\<open>DensityRNN\<close>.
\<close>

definition src_args :: args where
  "src_args = [(''cell_type'', Val (VStr ''RNNInitializer'')), (''dim_out'', Val (VInt 64))]"

definition dst_args :: args where
  "dst_args = [(''cell_type'', Val (VStr ''RNNInitializer''))]"

definition init_args :: args where
  "init_args = [(''cell_type'', Val (VStr ''DenseInitializer'')), (''dim_in'', Val (VInt 5))]"

definition gen_args :: args where
  "gen_args = [(''cell_type'', Val (VStr ''DensityRNN''))]"

definition mnist :: dataset where
  "mnist = \<lparr>dims = [(''input'', VInt 784)], distributions = [(''input'', VStr ''binomial'')]\<rparr>"

definition labels :: dataset where
  "labels = \<lparr>dims = [(''input'', VInt 10)], distributions = [(''input'', VStr ''multinomial'')]\<rparr>"

definition link_manager :: manager where
  "link_manager =
     \<lparr>cells = [],
      cell_args = [(''src'', src_args), (''dst'', dst_args), (''init'', init_args),
                   (''gen'', gen_args)],
      links = [],
      classes = [(''RNNInitializer'', RNNInitializer), (''GenRNN'', GenRNN),
                 (''DenseInitializer'', DenseInitializer), (''DensityRNN'', DensityRNN)],
      datasets = [(''D'', mnist), (''E'', labels), (''my.data'', mnist)],
      tparams = [], next_id = 0\<rparr>"

text \<open>The reference \<^verbatim>\<open><owner>.<key>\<close> to the field or port \<open>key\<close> of \<open>owner\<close>.\<close>

definition dotted :: "string \<Rightarrow> string \<Rightarrow> string" where
  "dotted owner key = owner @ ''.'' @ key"

text \<open>The link \<^verbatim>\<open>D.input -> init.input\<close> as \<^verbatim>\<open>Link.__init__\<close> builds it.\<close>

definition mnist_link :: link where
  "mnist_link =
     \<lparr>link_name = ''D.input->init.input'', link_value = VInt 784,
      link_distribution = VStr ''binomial'',
      link_nodes = [(''init'', \<lparr>C = DenseInitializer, link_key = ''input'',
                               dim_key = ''dim_in'', dist_key = None\<rparr>)]\<rparr>"

text \<open>
  The link \<^verbatim>\<open>gen.P -> D.input\<close> as \<^verbatim>\<open>Link.__init__\<close> builds it, and the manager after
  \<^verbatim>\<open>add_link('gen.P', 'D.input')\<close>.
\<close>

definition gen_link :: link where
  "gen_link =
     \<lparr>link_name = ''gen.P->D.input'', link_value = VInt 784,
      link_distribution = VStr ''binomial'',
      link_nodes = [(''gen'', \<lparr>C = DensityRNN, link_key = ''P'', dim_key = ''dim_in'',
                              dist_key = Some ''&distribution_type''\<rparr>)]\<rparr>"

definition gen_linked_manager :: manager where
  "gen_linked_manager =
     link_manager
       \<lparr>links := [gen_link],
        cell_args := [(''src'', src_args), (''dst'', dst_args), (''init'', init_args),
                      (''gen'', gen_args @ [(''dim_in'', LinkRef gen_link),
                                            (''distribution_type'', LinkRef gen_link)])]\<rparr>"

text \<open>
  A constructor for the examples: a layer without parameters and components, which
  registers the new cell under its name. And a manager in which \<^verbatim>\<open>init\<close> is built while
  \<^verbatim>\<open>enc\<close> and \<^verbatim>\<open>gen\<close> are declared with all their required arguments.
\<close>

definition registering_constructor :: constructor where
  "registering_constructor cls reqs options cm =
     (case map_of options ''name'' of
        Some (Val (VStr nm)) \<Rightarrow>
          (None, cm\<lparr>cells := AList.update nm (Cell nm (Some []) [] [] 0 0 0 []) (cells cm)\<rparr>)
      | _ \<Rightarrow> (Some Call_TypeError, cm))"

definition build_manager :: manager where
  "build_manager =
     \<lparr>cells = [(''init'', built_cell)],
      cell_args =
        [(''init'', recorded_args),
         (''enc'', [(''cell_type'', Val (VStr ''RNNInitializer'')), (''dim_in'', Val (VInt 784)),
                    (''dim_out'', Val (VInt 64))]),
         (''gen'', [(''cell_type'', Val (VStr ''GenRNN'')),
                    (''distribution_type'', Val (VStr ''binomial''))])],
      links = [],
      classes = [(''RNNInitializer'', RNNInitializer), (''GenRNN'', GenRNN)],
      datasets = [], tparams = [], next_id = 0\<rparr>"

text \<open>
  Cells. \<^verbatim>\<open>net.enc\<close> has two parameters and no component; \<open>enc_raw\<close> is the cell before
  line 192 of its constructor, \<open>enc_built\<close> the cell after the constructor has run on the
  empty manager, which then is \<open>enc_manager\<close>. \<^verbatim>\<open>net\<close> has a parameter \<^verbatim>\<open>U\<close>, a
  list-valued group \<^verbatim>\<open>V\<close> of two arrays, the component \<^verbatim>\<open>enc\<close>, a list-valued component
  \<^verbatim>\<open>layers\<close> of two cells, and a component \<^verbatim>\<open>aux\<close> that is \<^verbatim>\<open>None\<close>.
\<close>

definition empty_manager :: manager where
  "empty_manager =
     \<lparr>cells = [], cell_args = [], links = [], classes = [], datasets = [], tparams = [],
      next_id = 0\<rparr>"

definition enc_raw :: cell where
  "enc_raw =
     Cell ''net.enc'' (Some [(''W'', Arr (NdArray [4, 3])), (''b'', Arr (NdArray [3]))])
       [] [] 0 0 0 []"

definition enc_built :: cell where
  "enc_built =
     Cell ''net.enc'' (Some [(''W'', Arr (NdArray [4, 3])), (''b'', Arr (NdArray [3]))]) []
       [(''W'', Handle (Shared 0 ''net.enc.W'' (NdArray [4, 3]))),
        (''b'', Handle (Shared 1 ''net.enc.b'' (NdArray [3])))]
       2 0 2 [''W'', ''b'']"

definition enc_manager :: manager where
  "enc_manager =
     empty_manager
       \<lparr>tparams := [(''net.enc.W'', Shared 0 ''net.enc.W'' (NdArray [4, 3])),
                    (''net.enc.b'', Shared 1 ''net.enc.b'' (NdArray [3]))],
        next_id := 2\<rparr>"

definition net_raw :: cell where
  "net_raw =
     Cell ''net''
       (Some [(''U'', Arr (NdArray [3, 3])), (''V'', ArrList [NdArray [3], NdArray [3]])])
       [''enc'', ''layers'', ''aux'']
       [(''enc'', Comp enc_built), (''layers'', Comps [enc_built, enc_built]),
        (''aux'', NoneAttr)]
       0 0 0 []"

definition net_built :: cell where
  "net_built =
     Cell ''net''
       (Some [(''U'', Arr (NdArray [3, 3])), (''V'', ArrList [NdArray [3], NdArray [3]])])
       [''enc'', ''layers'', ''aux'']
       [(''enc'', Comp enc_built), (''layers'', Comps [enc_built, enc_built]),
        (''aux'', NoneAttr),
        (''U'', Handle (Shared 2 ''net.U'' (NdArray [3, 3]))),
        (''V'', Handles [Shared 3 ''net.V[0]'' (NdArray [3]),
                         Shared 4 ''net.V[1]'' (NdArray [3])])]
       3 6 9 [''U'', ''V[0]'', ''V[1]'']"

definition net_manager :: manager where
  "net_manager =
     empty_manager
       \<lparr>tparams := [(''net.enc.W'', Shared 0 ''net.enc.W'' (NdArray [4, 3])),
                    (''net.enc.b'', Shared 1 ''net.enc.b'' (NdArray [3])),
                    (''net.U'', Shared 2 ''net.U'' (NdArray [3, 3])),
                    (''net.V[0]'', Shared 3 ''net.V[0]'' (NdArray [3])),
                    (''net.V[1]'', Shared 4 ''net.V[1]'' (NdArray [3]))],
        next_id := 5\<rparr>"

section \<open>Argument records: \<^verbatim>\<open>match_args\<close>\<close>

lemma update_fresh: "k \<notin> fst ` set al \<Longrightarrow> AList.update k v al = al @ [(k, v)]"
  by (induction al) auto

text \<open>
  On a cell that is not built, the loop appends every incoming pair to the dictionary it
  is given, provided the incoming keys are new to it.
\<close>

lemma match_loop_fresh:
  "distinct (map fst kwargs) \<Longrightarrow> fst ` set kwargs \<inter> fst ` set as = {} \<Longrightarrow>
   match_loop False as kwargs = (None, as @ kwargs)"
proof (induction kwargs arbitrary: as)
  case Nil
  then show ?case by simp
next
  case (Cons kv kwargs)
  obtain k v where kv: "kv = (k, v)" by (cases kv)
  from Cons.prems kv have fresh: "k \<notin> fst ` set as" by auto
  have upd: "AList.update k v as = as @ [(k, v)]" using fresh by (rule update_fresh)
  have look: "map_of (as @ [(k, v)]) k = Some v" using fresh
    by (simp add: map_of_eq_None_iff map_add_Some_iff)
  have "match_loop False (as @ [(k, v)]) kwargs = (None, (as @ [(k, v)]) @ kwargs)"
    using Cons.prems kv by (intro Cons.IH) auto
  then show ?case using kv fresh upd look by simp
qed

text \<open>
  What \<^verbatim>\<open>match_args\<close> does on a cell that is not built: the record becomes exactly the
  incoming arguments, whatever it held before.
\<close>

lemma match_args_replaces_record:
  assumes "cell_name \<notin> fst ` set (cells cm)" and "distinct (map fst kwargs)"
  shows "match_args cm cell_name kwargs =
           (None, cm\<lparr>cell_args := AList.update cell_name kwargs (cell_args cm)\<rparr>)"
  using assms match_loop_fresh[of kwargs "[]"]
  by (simp add: match_args_def update_conv')

text \<open>
  What \<^verbatim>\<open>match_args\<close> does on a built cell that has a record: the record is emptied, and
  the first incoming argument, whatever its key and value, raises the \<^verbatim>\<open>KeyError\<close> of an
  unknown argument.
\<close>

lemma match_args_built_rejects:
  assumes "cell_name \<in> fst ` set (cells cm)" and "cell_name \<in> fst ` set (cell_args cm)"
  shows "match_args cm cell_name ((k, v) # kwargs) =
           (Some Unknown_Argument,
            cm\<lparr>cell_args := AList.update cell_name [] (cell_args cm)\<rparr>)"
  using assms by (simp add: match_args_def update_conv')

text \<open>
  C1. On the built cell \<^verbatim>\<open>init\<close>, whose record holds \<^verbatim>\<open>dim_in = 784\<close>, the call
  \<^verbatim>\<open>match_args('init', dim_in=784)\<close> (recorded key, equal value) does not succeed as a
  no-op: it raises the unknown-argument \<^verbatim>\<open>KeyError\<close> and leaves the record empty. The
  call \<^verbatim>\<open>match_args('init', dim_in=5)\<close> (recorded key, different value) raises the same
  \<^verbatim>\<open>KeyError\<close>, not the argument-mismatch \<^verbatim>\<open>ValueError\<close>.
\<close>

theorem match_args_built_recorded_key:
  "map_of recorded_args ''dim_in'' = Some (Val (VInt 784)) \<and>
   match_args built_manager ''init'' [(''dim_in'', Val (VInt 784))] =
     (Some Unknown_Argument, built_manager\<lparr>cell_args := [(''init'', [])]\<rparr>) \<and>
   match_args built_manager ''init'' [(''dim_in'', Val (VInt 5))] =
     (Some Unknown_Argument, built_manager\<lparr>cell_args := [(''init'', [])]\<rparr>)"
  by (simp add: match_args_def built_manager_def recorded_args_def)

text \<open>
  C2. On the declared, not yet built cell \<^verbatim>\<open>init\<close>, whose record holds \<^verbatim>\<open>cell_type\<close> and
  \<^verbatim>\<open>dim_in\<close>, the call \<^verbatim>\<open>match_args('init', dim_out=10)\<close> succeeds, and afterwards the
  record holds \<^verbatim>\<open>dim_out\<close> alone: the entries recorded before are gone, not merged.
\<close>

theorem match_args_pending_drops_record:
  "map_of (cell_args pending_manager) ''init'' = Some recorded_args \<and>
   match_args pending_manager ''init'' [(''dim_out'', Val (VInt 10))] =
     (None, pending_manager\<lparr>cell_args := [(''init'', [(''dim_out'', Val (VInt 10))])]\<rparr>)"
  by (simp add: match_args_def pending_manager_def built_manager_def recorded_args_def)

section \<open>Links: construction\<close>

subsection \<open>References\<close>

lemma split_dot_nodot: "CHR ''.'' \<notin> set w \<Longrightarrow> split_dot w = [w]"
  by (induction w) auto

lemma split_dot_append:
  "CHR ''.'' \<notin> set w \<Longrightarrow> split_dot (w @ CHR ''.'' # r) = w # split_dot r"
  by (induction w) auto

lemma split_dot_dotted:
  "CHR ''.'' \<notin> set d \<Longrightarrow> CHR ''.'' \<notin> set k \<Longrightarrow> split_dot (dotted d k) = [d, k]"
  by (simp add: dotted_def split_dot_append split_dot_nodot)

lemma get_args_dataset:
  assumes "d \<in> fst ` set (datasets cm)" "CHR ''.'' \<notin> set d" "CHR ''.'' \<notin> set k"
  shows "get_args cm (dotted d k) = Inr (d, k, None)"
  using assms by (simp add: get_args_def split_arg_def split_dot_dotted)

subsection \<open>The steps of a construction that completes\<close>

lemma Link_init_InrD:
  assumes "Link_init cm f t = Inr (l, cm')"
  obtains fe te ds v dv ns where
    "get_args cm f = Inr fe" "get_args cm t = Inr te"
    "choose_dataset cm (fst fe) (fst (snd fe)) (fst te) (fst (snd te)) = Inr ds"
    "resolve_link cm ds fe te = Inr (v, dv)" "v \<noteq> VNone"
    "register_nodes ds fe te = Inr ns"
    "l = \<lparr>link_name = f @ ''->'' @ t, link_value = v, link_distribution = dv,
          link_nodes = ns\<rparr>"
    "cm' = cm\<lparr>links := links cm @ [l]\<rparr>"
  using assms unfolding Link_init_def and_then_def
  by (auto split: sum.splits prod.splits if_splits simp: Let_def)

lemma Link_init_two_datasets:
  assumes "get_args cm f = Inr (fn, fk, fc)" "get_args cm t = Inr (tn, tk, tc)"
    "fn \<in> fst ` set (datasets cm)" "tn \<in> fst ` set (datasets cm)"
  shows "Link_init cm f t = Inl Invalid_Link"
  using assms by (simp add: Link_init_def and_then_def choose_dataset_def)

lemma resolve_link_dataset:
  assumes "resolve_link cm (Some (dn, dk)) fe te = Inr (v, dv)"
  shows "\<exists>ds. map_of (datasets cm) dn = Some ds \<and> map_of (dims ds) dk = Some v \<and>
              map_of (distributions ds) dk = Some dv"
  using assms unfolding resolve_link_def
  by (auto split: prod.splits option.splits)

subsection \<open>Two cell endpoints\<close>

text \<open>
  \<^verbatim>\<open>manager.link.Link\<close> raises, so \<^verbatim>\<open>set_link_value\<close> neither returns a value nor raises
  \<^verbatim>\<open>ValueError\<close>: for a key of \<^verbatim>\<open>_dim_map\<close> it raises \<^verbatim>\<open>AttributeError\<close>, for any other
  key \<^verbatim>\<open>KeyError\<close>. The same holds for \<^verbatim>\<open>set_link_distribution\<close> and \<^verbatim>\<open>_dist_map\<close>.
\<close>

lemma manager_link_Link_raises: "manager_link_Link = Inl Attribute_Error"
  by (simp add: manager_link_Link_def Manager_attributes_def)

lemma set_link_value_raises:
  "set_link_value c key as =
     (if key \<in> fst ` set (dim_map c) then Inl Attribute_Error else Inl Bare_KeyError)"
proof (cases "map_of (dim_map c) key")
  case None
  moreover from None have "key \<notin> fst ` set (dim_map c)" by (simp add: map_of_eq_None_iff)
  ultimately show ?thesis by (simp add: set_link_value_def)
next
  case (Some dk)
  then have "key \<in> fst ` set (dim_map c)" by (metis map_of_eq_None_iff option.distinct(1))
  with Some show ?thesis
    by (simp add: set_link_value_def manager_link_Link_raises and_then_def)
qed

lemma set_link_distribution_raises:
  "set_link_distribution c key as = Inl Attribute_Error \<or>
   set_link_distribution c key as = Inl Bare_KeyError"
  by (simp add: set_link_distribution_def manager_link_Link_raises and_then_def
      split: arg.splits pyval.splits option.splits)

lemma except_ValueError_Inl:
  "except_ValueError r old = Inl e \<Longrightarrow> r = Inl e \<and> exc_class e \<noteq> ValueErrorC"
  by (auto simp: except_ValueError_def split: sum.splits if_splits)

lemma call_set_link_value_raises:
  "\<exists>e. call_set_link_value cls key as = Inl e \<and>
       e \<in> {Bare_KeyError, Attribute_Error, Call_TypeError}"
  by (cases cls) (simp_all add: call_set_link_value_def set_link_value_raises)

lemma except_ValueError_passes:
  "e \<in> {Bare_KeyError, Attribute_Error, Call_TypeError} \<Longrightarrow>
   except_ValueError (Inl e) old = Inl e"
  by (auto simp: except_ValueError_def)

text \<open>
  The call \<^verbatim>\<open>t_class.set_link_distribution(**t_args)\<close> of line 99 passes no \<open>key\<close>: on a
  record without an entry \<^verbatim>\<open>key\<close> the parameter cannot be bound.
\<close>

lemma call_set_link_distribution_no_key:
  "''key'' \<notin> fst ` set as \<Longrightarrow>
   call_set_link_distribution (Some c) as = Inl Call_TypeError"
  by (simp add: call_set_link_distribution_def map_of_eq_None_iff[THEN iffD2])

lemma resolve_link_two_cells:
  "\<exists>e. resolve_link cm None fe te = Inl e \<and>
       e \<in> {Bare_KeyError, Attribute_Error, Call_TypeError}"
proof -
  obtain f_name f_key f_class t_name t_key t_class
    where fe: "fe = (f_name, f_key, f_class)" and te: "te = (t_name, t_key, t_class)"
    by (cases fe, cases te) auto
  show ?thesis
  proof (cases "map_of (cell_args cm) t_name")
    case None
    then show ?thesis by (simp add: resolve_link_def fe te)
  next
    case t: (Some t_args)
    show ?thesis
    proof (cases "map_of (cell_args cm) f_name")
      case None
      then show ?thesis using t by (simp add: resolve_link_def fe te)
    next
      case f: (Some f_args)
      from call_set_link_value_raises[of t_class t_key t_args]
      obtain e where e: "call_set_link_value t_class t_key t_args = Inl e"
        and cls: "e \<in> {Bare_KeyError, Attribute_Error, Call_TypeError}" by blast
      from cls have "except_ValueError (Inl e) VNone = (Inl e :: error + pyval)"
        by (rule except_ValueError_passes)
      then have "resolve_link cm None fe te = Inl e"
        using t f e by (simp add: resolve_link_def fe te and_then_def)
      with cls show ?thesis by blast
    qed
  qed
qed

text \<open>
  No link between two cells is ever constructed: whatever the two records hold, the
  construction raises in the first call of \<^verbatim>\<open>set_link_value\<close> (line 91), before any
  value is obtained, and what it raises is not the unresolvable-link \<^verbatim>\<open>TypeError\<close>.
\<close>

lemma Link_init_two_cells:
  assumes "get_args cm f = Inr (fn, fk, fc)" "get_args cm t = Inr (tn, tk, tc)"
    and "fn \<notin> fst ` set (datasets cm)" "tn \<notin> fst ` set (datasets cm)"
  shows "\<exists>e. Link_init cm f t = Inl e \<and> e \<in> {Bare_KeyError, Attribute_Error, Call_TypeError}"
proof -
  from resolve_link_two_cells[of cm "(fn, fk, fc)" "(tn, tk, tc)"]
  obtain e where "resolve_link cm None (fn, fk, fc) (tn, tk, tc) = Inl e"
    and "e \<in> {Bare_KeyError, Attribute_Error, Call_TypeError}" by blast
  then show ?thesis using assms
    by (simp add: Link_init_def and_then_def choose_dataset_def)
qed

text \<open>
  C3. The link \<^verbatim>\<open>src.output -> dst.input\<close> between two declared cells of the class
  \<^verbatim>\<open>RNNInitializer\<close>, where \<^verbatim>\<open>src\<close> is declared with \<^verbatim>\<open>dim_out = 64\<close>. The expression
  \<^verbatim>\<open>manager.link.Link\<close> raises \<^verbatim>\<open>AttributeError\<close>; so does the call of \<^verbatim>\<open>set_link_value\<close>
  for the target \<^verbatim>\<open>dst\<close>, which \<^verbatim>\<open>except ValueError\<close> does not catch, and the construction
  fails with that error. The call for the source \<^verbatim>\<open>src\<close>, whose record holds the value,
  is not reached, and it raises the same error instead of returning 64. The link
  \<^verbatim>\<open>src.input -> dst.output\<close>, for which neither record holds a value, fails with the
  same \<^verbatim>\<open>AttributeError\<close>, not with the unresolvable-link error. And the call
  \<^verbatim>\<open>t_class.set_link_distribution(**t_args)\<close> is a \<^verbatim>\<open>TypeError\<close> on these records.
\<close>

theorem Link_init_between_cells_AttributeError:
  "manager_link_Link = Inl Attribute_Error \<and>
   call_set_link_value (Some RNNInitializer) ''input'' dst_args = Inl Attribute_Error \<and>
   Link_init link_manager ''src.output'' ''dst.input'' = Inl Attribute_Error \<and>
   call_set_link_value (Some RNNInitializer) ''output'' src_args = Inl Attribute_Error \<and>
   Link_init link_manager ''src.input'' ''dst.output'' = Inl Attribute_Error \<and>
   call_set_link_distribution (Some RNNInitializer) dst_args = Inl Call_TypeError \<and>
   call_set_link_distribution (Some RNNInitializer) src_args = Inl Call_TypeError"
  by (simp add: Link_init_def get_args_def split_arg_def link_manager_def resolve_class_def
      and_then_def choose_dataset_def resolve_link_def call_set_link_value_def
      call_set_link_distribution_def set_link_value_def except_ValueError_def
      manager_link_Link_def Manager_attributes_def
      src_args_def dst_args_def RNNInitializer_def)

subsection \<open>Nodes\<close>

lemma Node_init_InrD:
  "Node_init cls key = Inr nd \<Longrightarrow>
   \<exists>c dk d. cls = Some c \<and> map_of (dim_map c) key = Some dk \<and>
     class_distribution c = Some d \<and>
     nd = \<lparr>C = c, link_key = key, dim_key = dk, dist_key = d\<rparr>"
  by (auto simp: Node_init_def split: option.splits)

lemma register_nodes_keys:
  assumes "register_nodes ds (fn, fk, fc) (tn, tk, tc) = Inr ns"
  shows "fst ` set ns = {n \<in> {fn, tn}. Some n \<noteq> map_option fst ds}"
  using assms unfolding register_nodes_def and_then_def
  by (auto split: if_splits sum.splits)

lemma register_nodes_distinct:
  assumes "register_nodes ds fe te = Inr ns"
  shows "distinct (map fst ns)"
  using assms unfolding register_nodes_def and_then_def
  by (auto split: if_splits sum.splits prod.splits simp: distinct_update)

lemma register_nodes_class:
  assumes "register_nodes ds (fn, fk, fc) (tn, tk, tc) = Inr ns" "(nm, nd) \<in> set ns"
  shows "(nm = fn \<and> fc = Some (C nd)) \<or> (nm = tn \<and> tc = Some (C nd))"
  using assms unfolding register_nodes_def and_then_def
  by (auto split: if_splits sum.splits dest!: Node_init_InrD)

lemma get_args_cell:
  "get_args cm f = Inr (fn, fk, Some c) \<Longrightarrow> fn \<in> fst ` set (cell_args cm)"
  by (auto simp: get_args_def split_arg_def Let_def and_then_def
      split: if_splits option.splits sum.splits)

lemma choose_dataset_cases:
  assumes "choose_dataset cm fn fk tn tk = Inr ds"
  shows "(fn \<in> fst ` set (datasets cm) \<and> tn \<notin> fst ` set (datasets cm) \<and> ds = Some (fn, fk)) \<or>
         (fn \<notin> fst ` set (datasets cm) \<and> tn \<in> fst ` set (datasets cm) \<and> ds = Some (tn, tk)) \<or>
         (fn \<notin> fst ` set (datasets cm) \<and> tn \<notin> fst ` set (datasets cm) \<and> ds = None)"
  using assms by (auto simp: choose_dataset_def split: if_splits)

lemma Link_init_node_names:
  assumes "get_args cm f = Inr (fn, fk, fc)" "get_args cm t = Inr (tn, tk, tc)"
    and "Link_init cm f t = Inr (l, cm')"
  shows "fst ` set (link_nodes l) = {n \<in> {fn, tn}. n \<notin> fst ` set (datasets cm)}"
proof -
  from assms(3) obtain fe te ds v dv ns where s:
    "get_args cm f = Inr fe" "get_args cm t = Inr te"
    "choose_dataset cm (fst fe) (fst (snd fe)) (fst te) (fst (snd te)) = Inr ds"
    "register_nodes ds fe te = Inr ns"
    and l: "l = \<lparr>link_name = f @ ''->'' @ t, link_value = v, link_distribution = dv,
          link_nodes = ns\<rparr>"
    by (rule Link_init_InrD)
  from l have ln: "link_nodes l = ns" by simp
  from s(1,2) assms(1,2) have fe: "fe = (fn, fk, fc)" and te: "te = (tn, tk, tc)" by simp_all
  from s(3) have cd: "choose_dataset cm fn fk tn tk = Inr ds" by (simp add: fe te)
  from s(4) have keys: "fst ` set ns = {n \<in> {fn, tn}. Some n \<noteq> map_option fst ds}"
    unfolding fe te by (rule register_nodes_keys)
  from choose_dataset_cases[OF cd] show ?thesis
  proof (elim disjE conjE)
    assume "fn \<in> fst ` set (datasets cm)" "tn \<notin> fst ` set (datasets cm)" "ds = Some (fn, fk)"
    then show ?thesis unfolding ln keys by auto
  next
    assume "fn \<notin> fst ` set (datasets cm)" "tn \<in> fst ` set (datasets cm)" "ds = Some (tn, tk)"
    then show ?thesis unfolding ln keys by auto
  next
    assume "fn \<notin> fst ` set (datasets cm)" "tn \<notin> fst ` set (datasets cm)" "ds = None"
    then show ?thesis unfolding ln keys by auto
  qed
qed











subsection \<open>Dataset endpoints\<close>

lemma Link_init_dataset_endpoint:
  assumes "get_args cm f = Inr (fn, fk, fc)" "get_args cm t = Inr (tn, tk, tc)"
    and ok: "Link_init cm f t = Inr (l, cm')"
    and d: "(dn, dk) = (fn, fk) \<or> (dn, dk) = (tn, tk)" "dn \<in> fst ` set (datasets cm)"
  shows "\<exists>ds. map_of (datasets cm) dn = Some ds \<and> map_of (dims ds) dk = Some (link_value l) \<and>
              map_of (distributions ds) dk = Some (link_distribution l)"
proof -
  from ok obtain fe te ds v dv ns where s:
    "get_args cm f = Inr fe" "get_args cm t = Inr te"
    "choose_dataset cm (fst fe) (fst (snd fe)) (fst te) (fst (snd te)) = Inr ds"
    "resolve_link cm ds fe te = Inr (v, dv)"
    and l: "l = \<lparr>link_name = f @ ''->'' @ t, link_value = v, link_distribution = dv,
          link_nodes = ns\<rparr>"
    by (rule Link_init_InrD)
  from s(1,2) assms(1,2) have fe: "fe = (fn, fk, fc)" and te: "te = (tn, tk, tc)" by simp_all
  from s(3) have cd: "choose_dataset cm fn fk tn tk = Inr ds" by (simp add: fe te)
  from choose_dataset_cases[OF cd] d have "ds = Some (dn, dk)" by auto
  with s(4) have "resolve_link cm (Some (dn, dk)) fe te = Inr (v, dv)" by simp
  from resolve_link_dataset[OF this] show ?thesis by (simp add: l)
qed

text \<open>
  C5 (amended). Let \<open>d\<close> be a registered dataset and \<open>k\<close> a field, neither containing a
  dot. A link from \<^verbatim>\<open>d.k\<close> to a field of a registered dataset, again without dots, fails
  with the invalid-link \<^verbatim>\<open>ValueError\<close>. And every link that is constructed with \<^verbatim>\<open>d.k\<close>
  as its source or as its target, whatever the other endpoint is and holds, has as value
  and distribution the entries for \<open>k\<close> of the tables \<^verbatim>\<open>dims\<close> and \<^verbatim>\<open>distributions\<close> of \<open>d\<close>.
\<close>

theorem Link_init_dataset_values:
  assumes "d \<in> fst ` set (datasets cm)" and "CHR ''.'' \<notin> set d" and "CHR ''.'' \<notin> set k"
  shows "(d' \<in> fst ` set (datasets cm) \<and> CHR ''.'' \<notin> set d' \<and> CHR ''.'' \<notin> set k' \<longrightarrow>
            Link_init cm (dotted d k) (dotted d' k') = Inl Invalid_Link) \<and>
         (Link_init cm (dotted d k) t = Inr (l, cm') \<or> Link_init cm f (dotted d k) = Inr (l, cm') \<longrightarrow>
            (\<exists>ds. map_of (datasets cm) d = Some ds \<and>
                  map_of (dims ds) k = Some (link_value l) \<and>
                  map_of (distributions ds) k = Some (link_distribution l)))"
proof (intro conjI impI)
  assume a: "d' \<in> fst ` set (datasets cm) \<and> CHR ''.'' \<notin> set d' \<and> CHR ''.'' \<notin> set k'"
  then have g': "get_args cm (dotted d' k') = Inr (d', k', None)"
    by (simp add: get_args_dataset)
  from a have "d' \<in> fst ` set (datasets cm)" by blast
  with get_args_dataset[OF assms] g' assms(1)
  show "Link_init cm (dotted d k) (dotted d' k') = Inl Invalid_Link"
    by (rule Link_init_two_datasets)
next
  let ?P = "\<exists>ds. map_of (datasets cm) d = Some ds \<and> map_of (dims ds) k = Some (link_value l) \<and>
                  map_of (distributions ds) k = Some (link_distribution l)"
  note g = get_args_dataset[OF assms]
  assume "Link_init cm (dotted d k) t = Inr (l, cm') \<or> Link_init cm f (dotted d k) = Inr (l, cm')"
  then show ?P
  proof
    assume ok: "Link_init cm (dotted d k) t = Inr (l, cm')"
    then obtain te where "get_args cm t = Inr te" by (rule Link_init_InrD)
    then obtain tn tk tc where "get_args cm t = Inr (tn, tk, tc)" by (cases te) auto
    from Link_init_dataset_endpoint[OF g this ok _ assms(1)] show ?P by simp
  next
    assume ok: "Link_init cm f (dotted d k) = Inr (l, cm')"
    then obtain fe where "get_args cm f = Inr fe" by (rule Link_init_InrD)
    then obtain fn fk fc where "get_args cm f = Inr (fn, fk, fc)" by (cases fe) auto
    from Link_init_dataset_endpoint[OF this g ok _ assms(1)] show ?P by simp
  qed
qed

lemma Link_init_mnist:
  "Link_init link_manager ''D.input'' ''init.input'' =
     Inr (mnist_link, link_manager\<lparr>links := links link_manager @ [mnist_link]\<rparr>)"
  by (simp add: get_args_def split_arg_def resolve_class_def init_args_def Link_init_def
      and_then_def choose_dataset_def resolve_link_def register_nodes_def Node_init_def
      link_manager_def mnist_def DenseInitializer_def RNNInitializer_def mnist_link_def
      Let_def)

text \<open>
  The theorem at the example manager: the link from \<^verbatim>\<open>D.input\<close> to \<^verbatim>\<open>E.input\<close> is invalid,
  and the link from \<^verbatim>\<open>D.input\<close> to the port \<^verbatim>\<open>input\<close> of \<^verbatim>\<open>init\<close>, a cell of the class
  \<^verbatim>\<open>DenseInitializer\<close> (which declares \<^verbatim>\<open>_distribution\<close>) declared with \<^verbatim>\<open>dim_in = 5\<close>, has
  the dataset's 784 as its value.
\<close>

theorem Link_init_dataset_values_witness:
  "Link_init link_manager ''D.input'' ''E.input'' = Inl Invalid_Link \<and>
   map_of init_args ''dim_in'' = Some (Val (VInt 5)) \<and>
   Link_init link_manager ''D.input'' ''init.input'' =
     Inr (mnist_link, link_manager\<lparr>links := links link_manager @ [mnist_link]\<rparr>) \<and>
   map_of (dims mnist) ''input'' = Some (link_value mnist_link) \<and>
   map_of (distributions mnist) ''input'' = Some (link_distribution mnist_link) \<and>
   link_value mnist_link = VInt 784"
proof -
  have h: "''D'' \<in> fst ` set (datasets link_manager)" "CHR ''.'' \<notin> set ''D''"
    "CHR ''.'' \<notin> set ''input''"
    by (simp_all add: link_manager_def)
  have h': "''E'' \<in> fst ` set (datasets link_manager) \<and> CHR ''.'' \<notin> set ''E'' \<and>
    CHR ''.'' \<notin> set ''input''"
    by (simp add: link_manager_def)
  have ok: "Link_init link_manager (dotted ''D'' ''input'') ''init.input'' =
     Inr (mnist_link, link_manager\<lparr>links := links link_manager @ [mnist_link]\<rparr>)"
    using Link_init_mnist by (simp add: dotted_def)
  note inst = Link_init_dataset_values[OF h, of "''E''" "''input''" "''init.input''" mnist_link
      "link_manager\<lparr>links := links link_manager @ [mnist_link]\<rparr>" "''init.input''"]
  from inst h' have 1: "Link_init link_manager ''D.input'' ''E.input'' = Inl Invalid_Link"
    by (simp add: dotted_def)
  from inst ok have "\<exists>ds. map_of (datasets link_manager) ''D'' = Some ds \<and>
                  map_of (dims ds) ''input'' = Some (link_value mnist_link) \<and>
                  map_of (distributions ds) ''input'' = Some (link_distribution mnist_link)"
    by blast
  then have 2: "map_of (dims mnist) ''input'' = Some (link_value mnist_link) \<and>
      map_of (distributions mnist) ''input'' = Some (link_distribution mnist_link)"
    by (simp add: link_manager_def)
  have 3: "map_of init_args ''dim_in'' = Some (Val (VInt 5))" "link_value mnist_link = VInt 784"
    by (simp_all add: init_args_def mnist_link_def)
  from 1 2 3 Link_init_mnist show ?thesis by blast
qed

text \<open>
  C5 as stated fails for a dataset whose name has a dot: \<^verbatim>\<open>my.data\<close> and \<^verbatim>\<open>E\<close> are both
  registered datasets, and the link from \<^verbatim>\<open>my.data.input\<close> to \<^verbatim>\<open>E.input\<close> fails with the
  \<^verbatim>\<open>KeyError\<close> of an unknown reference, not with the invalid-link error:
  \<^verbatim>\<open>get_args\<close> looks for the dataset \<^verbatim>\<open>my\<close>.
\<close>

theorem Link_init_dotted_dataset_name:
  "''my.data'' \<in> fst ` set (datasets link_manager) \<and>
   ''E'' \<in> fst ` set (datasets link_manager) \<and>
   map_of (dims mnist) ''input'' = Some (VInt 784) \<and>
   Link_init link_manager (dotted ''my.data'' ''input'') (dotted ''E'' ''input'') =
     Inl Reference_Not_Found"
  by (simp add: dotted_def get_args_def split_arg_def Link_init_def and_then_def
      link_manager_def mnist_def)

section \<open>Links: back-filling the argument records (\<^verbatim>\<open>add_link\<close>)\<close>

lemma backfilled_lookup:
  assumes "backfilled l nd as = Inr as'"
  shows "map_of as' k =
     (if (k = dim_key nd \<or>
          (distribution_key nd = Some k \<and> declares_distribution (C nd) = Inr True))
         \<and> unset as k
      then Some (LinkRef l) else map_of as k)"
proof (cases "declares_distribution (C nd)")
  case (Inl e)
  with assms show ?thesis
    by (auto simp: backfilled_def Let_def unset_def update_conv' and_then_def
        split: option.splits if_splits)
next
  case (Inr declared)
  with assms show ?thesis
    by (cases declared)
      (auto simp: backfilled_def Let_def unset_def update_conv' and_then_def
        split: option.splits if_splits)
qed

lemma backfilled_returns:
  "class_distribution (C nd) = Some d \<Longrightarrow> \<exists>as'. backfilled l nd as = Inr as'"
  by (simp add: backfilled_def declares_distribution_def and_then_def Let_def
      split: option.splits)

lemma keys_update: "fst ` set (AList.update k v al) = insert k (fst ` set al)"
  by (induction al) auto

lemma backfill_Inr:
  assumes "nm \<notin> fst ` set (datasets cm)" "map_of (cell_args cm) nm = Some as"
    and "backfilled l nd as = Inr as'"
  shows "backfill cm l nm nd = Inr (cm\<lparr>cell_args := AList.update nm as' (cell_args cm)\<rparr>)"
  using assms by (simp add: backfill_def and_then_def)

text \<open>
  The loop over nodes with distinct names, none a dataset, each with a record and a class
  that declares \<^verbatim>\<open>_distribution\<close>: it returns, changes the argument records only, leaves
  the records of all other cells, and gives each node's cell what one pass writes into
  the record the cell had before the loop.
\<close>

lemma backfill_all_effect:
  assumes "distinct (map fst ns)"
    and "\<And>nm nd. (nm, nd) \<in> set ns \<Longrightarrow>
           nm \<notin> fst ` set (datasets cm) \<and> nm \<in> fst ` set (cell_args cm) \<and>
           (\<exists>d. class_distribution (C nd) = Some d)"
  shows "\<exists>cm'. backfill_all cm l ns = Inr cm' \<and> cm' = cm\<lparr>cell_args := cell_args cm'\<rparr> \<and>
           (\<forall>nm. nm \<notin> fst ` set ns \<longrightarrow>
                 map_of (cell_args cm') nm = map_of (cell_args cm) nm) \<and>
           (\<forall>nm nd. (nm, nd) \<in> set ns \<longrightarrow>
              (\<exists>as as'. map_of (cell_args cm) nm = Some as \<and>
                         backfilled l nd as = Inr as' \<and>
                         map_of (cell_args cm') nm = Some as'))"
  using assms
proof (induction ns arbitrary: cm)
  case Nil
  then show ?case by simp
next
  case (Cons p ns)
  obtain nm nd where p: "p = (nm, nd)" by (cases p)
  have "(nm, nd) \<in> set (p # ns)" by (simp add: p)
  from Cons.prems(2)[OF this]
  have nm: "nm \<notin> fst ` set (datasets cm)" "nm \<in> fst ` set (cell_args cm)"
    and decl: "\<exists>d. class_distribution (C nd) = Some d"
    by simp_all
  from nm(2) obtain as where as: "map_of (cell_args cm) nm = Some as"
    by (cases "map_of (cell_args cm) nm") (auto simp: map_of_eq_None_iff)
  from decl obtain as1 where as1: "backfilled l nd as = Inr as1"
    using backfilled_returns[of nd _ l as] by blast
  define cm1 where "cm1 = cm\<lparr>cell_args := AList.update nm as1 (cell_args cm)\<rparr>"
  have step: "backfill cm l nm nd = Inr cm1"
    unfolding cm1_def using nm(1) as as1 by (rule backfill_Inr)
  have d1: "datasets cm1 = datasets cm" and
    a1: "map_of (cell_args cm1) = (map_of (cell_args cm))(nm \<mapsto> as1)"
    by (simp_all add: cm1_def update_conv')
  have k1: "fst ` set (cell_args cm1) = insert nm (fst ` set (cell_args cm))"
    by (simp add: cm1_def keys_update)
  have dist: "distinct (map fst ns)" and fresh: "nm \<notin> fst ` set ns"
    using Cons.prems(1) by (simp_all add: p)
  have ready1: "\<And>n nd'. (n, nd') \<in> set ns \<Longrightarrow>
           n \<notin> fst ` set (datasets cm1) \<and> n \<in> fst ` set (cell_args cm1) \<and>
           (\<exists>d. class_distribution (C nd') = Some d)"
  proof -
    fix n nd' assume "(n, nd') \<in> set ns"
    then have "(n, nd') \<in> set (p # ns)" by simp
    from Cons.prems(2)[OF this]
    show "n \<notin> fst ` set (datasets cm1) \<and> n \<in> fst ` set (cell_args cm1) \<and>
           (\<exists>d. class_distribution (C nd') = Some d)"
      by (simp add: d1 k1)
  qed
  from Cons.IH[OF dist ready1] obtain cm' where
    r1: "backfill_all cm1 l ns = Inr cm'"
    and r2: "cm' = cm1\<lparr>cell_args := cell_args cm'\<rparr>"
    and r3: "\<forall>n. n \<notin> fst ` set ns \<longrightarrow> map_of (cell_args cm') n = map_of (cell_args cm1) n"
    and r4: "\<forall>n nd'. (n, nd') \<in> set ns \<longrightarrow>
              (\<exists>as as'. map_of (cell_args cm1) n = Some as \<and>
                         backfilled l nd' as = Inr as' \<and>
                         map_of (cell_args cm') n = Some as')"
    by blast
  have "backfill_all cm l (p # ns) = Inr cm'" using step r1 by (simp add: p and_then_def)
  moreover have "cm' = cm\<lparr>cell_args := cell_args cm'\<rparr>"
    using r2 by (simp add: cm1_def)
  moreover have "\<forall>n. n \<notin> fst ` set (p # ns) \<longrightarrow>
                 map_of (cell_args cm') n = map_of (cell_args cm) n"
  proof (intro allI impI)
    fix n assume "n \<notin> fst ` set (p # ns)"
    then have "n \<noteq> nm" "n \<notin> fst ` set ns" by (simp_all add: p)
    with r3 show "map_of (cell_args cm') n = map_of (cell_args cm) n" by (simp add: a1)
  qed
  moreover have "\<forall>n nd'. (n, nd') \<in> set (p # ns) \<longrightarrow>
              (\<exists>as as'. map_of (cell_args cm) n = Some as \<and>
                         backfilled l nd' as = Inr as' \<and>
                         map_of (cell_args cm') n = Some as')"
  proof (intro allI impI)
    fix n nd' assume "(n, nd') \<in> set (p # ns)"
    then consider (head) "n = nm" "nd' = nd" | (tail) "(n, nd') \<in> set ns" by (auto simp: p)
    then show "\<exists>as as'. map_of (cell_args cm) n = Some as \<and>
                         backfilled l nd' as = Inr as' \<and>
                         map_of (cell_args cm') n = Some as'"
    proof cases
      case head
      from r3 fresh have "map_of (cell_args cm') nm = Some as1" by (simp add: a1)
      with as as1 head show ?thesis by simp
    next
      case tail
      then have "n \<in> fst ` set ns" by force
      with fresh have ne: "n \<noteq> nm" by blast
      from r4 tail obtain bs bs' where
        "map_of (cell_args cm1) n = Some bs" "backfilled l nd' bs = Inr bs'"
        "map_of (cell_args cm') n = Some bs'" by blast
      with ne show ?thesis by (simp add: a1)
    qed
  qed
  ultimately show ?case by blast
qed

lemma register_nodes_declared:
  assumes "register_nodes ds (fn, fk, fc) (tn, tk, tc) = Inr ns" "(nm, nd) \<in> set ns"
  shows "class_distribution (C nd) = Some (dist_key nd)"
  using assms unfolding register_nodes_def and_then_def
  by (auto split: if_splits sum.splits dest!: Node_init_InrD)

lemma Link_init_nodes_ready:
  assumes ok: "Link_init cm f t = Inr (l, cm1)"
  shows "distinct (map fst (link_nodes l))"
    and "\<And>nm nd. (nm, nd) \<in> set (link_nodes l) \<Longrightarrow>
           nm \<notin> fst ` set (datasets cm) \<and> nm \<in> fst ` set (cell_args cm) \<and>
           (\<exists>d. class_distribution (C nd) = Some d)"
proof -
  from ok obtain fe te ds v dv ns where s:
    "get_args cm f = Inr fe" "get_args cm t = Inr te"
    "register_nodes ds fe te = Inr ns"
    and l: "l = \<lparr>link_name = f @ ''->'' @ t, link_value = v, link_distribution = dv,
          link_nodes = ns\<rparr>"
    by (rule Link_init_InrD)
  from l have ln: "link_nodes l = ns" by simp
  obtain fn fk fc tn tk tc where fe: "fe = (fn, fk, fc)" and te: "te = (tn, tk, tc)"
    by (cases fe, cases te) auto
  from s(3) show "distinct (map fst (link_nodes l))"
    unfolding ln by (rule register_nodes_distinct)
  have names: "fst ` set ns = {n \<in> {fn, tn}. n \<notin> fst ` set (datasets cm)}"
    using Link_init_node_names[OF s(1)[unfolded fe] s(2)[unfolded te] ok] by (simp add: ln)
  fix nm nd assume "(nm, nd) \<in> set (link_nodes l)"
  then have m: "(nm, nd) \<in> set ns" by (simp add: ln)
  then have "nm \<in> fst ` set ns" by force
  with names have 1: "nm \<notin> fst ` set (datasets cm)" by blast
  from register_nodes_class[OF s(3)[unfolded fe te] m]
  have "(nm = fn \<and> fc = Some (C nd)) \<or> (nm = tn \<and> tc = Some (C nd))" .
  then have 2: "nm \<in> fst ` set (cell_args cm)"
    using s(1,2) get_args_cell unfolding fe te by blast
  from register_nodes_declared[OF s(3)[unfolded fe te] m]
  have 3: "\<exists>d. class_distribution (C nd) = Some d" by blast
  from 1 2 3 show "nm \<notin> fst ` set (datasets cm) \<and> nm \<in> fst ` set (cell_args cm) \<and>
           (\<exists>d. class_distribution (C nd) = Some d)" by blast
qed

text \<open>
  C6. Whenever the construction of the link \<open>l\<close> completes, \<^verbatim>\<open>add_link\<close> returns, and the
  manager differs from the one before in the new link at the end of the link list and
  in the argument records only. The record of every cell that is not a node of the link
  is as before. For every node of the link (none of them is a dataset), the cell's
  record after the call agrees with the record before at every key, except that a key
  which was unset (absent, or \<^verbatim>\<open>None\<close>) now holds the link if it is the node's dimension
  key, or if it is the node's distribution key (the \<^verbatim>\<open>dist_key\<close> without its leading
  \<^verbatim>\<open>&\<close>, or \<^verbatim>\<open>cell_type\<close>) and the node's class declares a distribution other than
  \<^verbatim>\<open>None\<close>.
\<close>

theorem add_link_backfill:
  assumes ok: "Link_init cm f t = Inr (l, cm1)"
  shows "\<exists>cm'. add_link cm f t = Inr cm' \<and>
           cm' = cm\<lparr>links := links cm @ [l], cell_args := cell_args cm'\<rparr> \<and>
           (\<forall>nm. nm \<notin> fst ` set (link_nodes l) \<longrightarrow>
                 map_of (cell_args cm') nm = map_of (cell_args cm) nm) \<and>
           (\<forall>(nm, nd) \<in> set (link_nodes l).
              nm \<notin> fst ` set (datasets cm) \<and>
              (\<exists>as as'. map_of (cell_args cm) nm = Some as \<and>
                 map_of (cell_args cm') nm = Some as' \<and>
                 (\<forall>k. map_of as' k =
                    (if (k = dim_key nd \<or>
                         (distribution_key nd = Some k \<and>
                          declares_distribution (C nd) = Inr True))
                        \<and> unset as k
                     then Some (LinkRef l) else map_of as k))))"
proof -
  from ok have cm1: "cm1 = cm\<lparr>links := links cm @ [l]\<rparr>" by (rule Link_init_InrD)
  note ready = Link_init_nodes_ready[OF ok]
  have ready1: "\<And>nm nd. (nm, nd) \<in> set (link_nodes l) \<Longrightarrow>
           nm \<notin> fst ` set (datasets cm1) \<and> nm \<in> fst ` set (cell_args cm1) \<and>
           (\<exists>d. class_distribution (C nd) = Some d)"
    using ready(2) by (simp add: cm1)
  from backfill_all_effect[OF ready(1) ready1, of l] obtain cm' where
    r1: "backfill_all cm1 l (link_nodes l) = Inr cm'"
    and r2: "cm' = cm1\<lparr>cell_args := cell_args cm'\<rparr>"
    and r3: "\<forall>nm. nm \<notin> fst ` set (link_nodes l) \<longrightarrow>
                 map_of (cell_args cm') nm = map_of (cell_args cm1) nm"
    and r4: "\<forall>nm nd. (nm, nd) \<in> set (link_nodes l) \<longrightarrow>
              (\<exists>as as'. map_of (cell_args cm1) nm = Some as \<and>
                         backfilled l nd as = Inr as' \<and>
                         map_of (cell_args cm') nm = Some as')"
    by blast
  have a: "add_link cm f t = Inr cm'" using ok r1 by (simp add: add_link_def and_then_def)
  have b: "cm' = cm\<lparr>links := links cm @ [l], cell_args := cell_args cm'\<rparr>"
    using r2 by (simp add: cm1)
  have c: "\<forall>nm. nm \<notin> fst ` set (link_nodes l) \<longrightarrow>
                 map_of (cell_args cm') nm = map_of (cell_args cm) nm"
    using r3 by (simp add: cm1)
  have d: "\<forall>(nm, nd) \<in> set (link_nodes l).
              nm \<notin> fst ` set (datasets cm) \<and>
              (\<exists>as as'. map_of (cell_args cm) nm = Some as \<and>
                 map_of (cell_args cm') nm = Some as' \<and>
                 (\<forall>k. map_of as' k =
                    (if (k = dim_key nd \<or>
                         (distribution_key nd = Some k \<and>
                          declares_distribution (C nd) = Inr True))
                        \<and> unset as k
                     then Some (LinkRef l) else map_of as k)))"
  proof (intro ballI, clarify)
    fix nm nd assume m: "(nm, nd) \<in> set (link_nodes l)"
    from ready(2)[OF m] have 1: "nm \<notin> fst ` set (datasets cm)" by (rule conjunct1)
    from r4 m have "\<exists>as as'. map_of (cell_args cm1) nm = Some as \<and>
                         backfilled l nd as = Inr as' \<and>
                         map_of (cell_args cm') nm = Some as'"
      by blast
    then obtain as as' where as: "map_of (cell_args cm) nm = Some as"
      and bf: "backfilled l nd as = Inr as'"
      and as': "map_of (cell_args cm') nm = Some as'"
      by (auto simp: cm1)
    have "\<forall>k. map_of as' k =
                    (if (k = dim_key nd \<or>
                         (distribution_key nd = Some k \<and>
                          declares_distribution (C nd) = Inr True))
                        \<and> unset as k
                     then Some (LinkRef l) else map_of as k)"
      using backfilled_lookup[OF bf] by (rule allI)
    with 1 as as'
    show "nm \<notin> fst ` set (datasets cm) \<and>
              (\<exists>as as'. map_of (cell_args cm) nm = Some as \<and>
                 map_of (cell_args cm') nm = Some as' \<and>
                 (\<forall>k. map_of as' k =
                    (if (k = dim_key nd \<or>
                         (distribution_key nd = Some k \<and>
                          declares_distribution (C nd) = Inr True))
                        \<and> unset as k
                     then Some (LinkRef l) else map_of as k)))"
      by blast
  qed
  from a b c d show ?thesis by blast
qed

lemma Link_init_gen:
  "Link_init link_manager ''gen.P'' ''D.input'' =
     Inr (gen_link, link_manager\<lparr>links := links link_manager @ [gen_link]\<rparr>)"
  by (simp add: get_args_def split_arg_def resolve_class_def gen_args_def Link_init_def
      and_then_def choose_dataset_def resolve_link_def register_nodes_def Node_init_def
      link_manager_def mnist_def DensityRNN_def GenRNN_def gen_link_def Let_def)

lemma link_nodes_gen:
  "link_nodes gen_link =
     [(''gen'', \<lparr>C = DensityRNN, link_key = ''P'', dim_key = ''dim_in'',
                 dist_key = Some ''&distribution_type''\<rparr>)]"
  by (simp add: gen_link_def)

lemma add_link_gen: "add_link link_manager ''gen.P'' ''D.input'' = Inr gen_linked_manager"
  unfolding add_link_def Link_init_gen
  by (simp add: and_then_def link_nodes_gen backfill_def backfilled_def unset_def
      declares_distribution_def distribution_key_def link_manager_def
      gen_linked_manager_def gen_args_def DensityRNN_def GenRNN_def Let_def)

lemma link_nodes_mnist:
  "link_nodes mnist_link =
     [(''init'', \<lparr>C = DenseInitializer, link_key = ''input'', dim_key = ''dim_in'',
                  dist_key = None\<rparr>)]"
  by (simp add: mnist_link_def)

lemma add_link_init:
  "add_link link_manager ''D.input'' ''init.input'' =
     Inr (link_manager\<lparr>links := [mnist_link]\<rparr>)"
  unfolding add_link_def Link_init_mnist
  by (simp add: and_then_def link_nodes_mnist backfill_def backfilled_def unset_def
      declares_distribution_def distribution_key_def link_manager_def init_args_def
      DenseInitializer_def RNNInitializer_def Let_def)

text \<open>
  The theorem at the link from the port \<^verbatim>\<open>P\<close> of \<^verbatim>\<open>gen\<close> to \<^verbatim>\<open>D.input\<close>: the class of \<^verbatim>\<open>gen\<close>
  is \<^verbatim>\<open>DensityRNN\<close>, which declares \<^verbatim>\<open>_distribution = '&distribution_type'\<close>, and the
  record of \<^verbatim>\<open>gen\<close> holds neither \<^verbatim>\<open>dim_in\<close> nor \<^verbatim>\<open>distribution_type\<close>, so both are set to
  the link. The link from \<^verbatim>\<open>D.input\<close> to \<^verbatim>\<open>init.input\<close> changes no record: \<^verbatim>\<open>init\<close> holds
  \<^verbatim>\<open>dim_in\<close>, and its class \<^verbatim>\<open>DenseInitializer\<close> declares \<^verbatim>\<open>_distribution = None\<close>.
\<close>

theorem add_link_backfill_witness:
  "Link_init link_manager ''gen.P'' ''D.input'' =
     Inr (gen_link, link_manager\<lparr>links := links link_manager @ [gen_link]\<rparr>) \<and>
   add_link link_manager ''gen.P'' ''D.input'' = Inr gen_linked_manager \<and>
   (\<exists>as'. map_of (cell_args gen_linked_manager) ''gen'' = Some as' \<and>
          map_of as' ''dim_in'' = Some (LinkRef gen_link) \<and>
          map_of as' ''distribution_type'' = Some (LinkRef gen_link) \<and>
          map_of as' ''cell_type'' = Some (Val (VStr ''DensityRNN''))) \<and>
   map_of (cell_args gen_linked_manager) ''init'' = map_of (cell_args link_manager) ''init'' \<and>
   add_link link_manager ''D.input'' ''init.input'' = Inr (link_manager\<lparr>links := [mnist_link]\<rparr>)"
proof -
  from add_link_backfill[OF Link_init_gen] obtain cm' where
    a: "add_link link_manager ''gen.P'' ''D.input'' = Inr cm'"
    and c: "\<forall>nm. nm \<notin> fst ` set (link_nodes gen_link) \<longrightarrow>
                 map_of (cell_args cm') nm = map_of (cell_args link_manager) nm"
    and d: "\<forall>(nm, nd) \<in> set (link_nodes gen_link).
              nm \<notin> fst ` set (datasets link_manager) \<and>
              (\<exists>as as'. map_of (cell_args link_manager) nm = Some as \<and>
                 map_of (cell_args cm') nm = Some as' \<and>
                 (\<forall>k. map_of as' k =
                    (if (k = dim_key nd \<or>
                         (distribution_key nd = Some k \<and>
                          declares_distribution (C nd) = Inr True))
                        \<and> unset as k
                     then Some (LinkRef gen_link) else map_of as k)))"
    by blast
  from a add_link_gen have cm': "cm' = gen_linked_manager" by simp
  define nd where "nd = \<lparr>C = DensityRNN, link_key = ''P'', dim_key = ''dim_in'',
                              dist_key = Some ''&distribution_type''\<rparr>"
  have "(''gen'', nd) \<in> set (link_nodes gen_link)" by (simp add: link_nodes_gen nd_def)
  with d obtain as as' where
    as: "map_of (cell_args link_manager) ''gen'' = Some as"
    and as': "map_of (cell_args gen_linked_manager) ''gen'' = Some as'"
    and k: "\<And>k. map_of as' k =
                    (if (k = dim_key nd \<or>
                         (distribution_key nd = Some k \<and>
                          declares_distribution (C nd) = Inr True))
                        \<and> unset as k
                     then Some (LinkRef gen_link) else map_of as k)"
    unfolding cm' by blast
  from as have as_eq: "as = gen_args" by (simp add: link_manager_def)
  have "map_of as' ''dim_in'' = Some (LinkRef gen_link)"
    "map_of as' ''distribution_type'' = Some (LinkRef gen_link)"
    "map_of as' ''cell_type'' = Some (Val (VStr ''DensityRNN''))"
    by (simp_all add: k as_eq nd_def gen_args_def unset_def distribution_key_def
        declares_distribution_def DensityRNN_def GenRNN_def)
  with as' have 1: "\<exists>as'. map_of (cell_args gen_linked_manager) ''gen'' = Some as' \<and>
          map_of as' ''dim_in'' = Some (LinkRef gen_link) \<and>
          map_of as' ''distribution_type'' = Some (LinkRef gen_link) \<and>
          map_of as' ''cell_type'' = Some (Val (VStr ''DensityRNN''))" by blast
  have "''init'' \<notin> fst ` set (link_nodes gen_link)" by (simp add: link_nodes_gen)
  with c have 2: "map_of (cell_args gen_linked_manager) ''init'' =
      map_of (cell_args link_manager) ''init''"
    unfolding cm' by blast
  from Link_init_gen add_link_gen 1 2 add_link_init show ?thesis by blast
qed

section \<open>Building (\<^verbatim>\<open>Manager.build\<close>)\<close>

lemma build_all_example:
  "build_all registering_constructor build_manager 0 =
     Some (None, build_manager\<lparr>cells :=
        [(''init'', built_cell), (''enc'', Cell ''enc'' (Some []) [] [] 0 0 0 []),
         (''gen'', Cell ''gen'' (Some []) [] [] 0 0 0 [])]\<rparr>)"
  by (simp add: build_all.simps build_cell_def factory_def resolve_class_def
      registering_constructor_def build_manager_def recorded_args_def
      RNNInitializer_def GenRNN_def Let_def)

lemma build_cell_example:
  "build_cell registering_constructor build_manager ''gen'' =
     (None, build_manager\<lparr>cells :=
        [(''init'', built_cell), (''gen'', Cell ''gen'' (Some []) [] [] 0 0 0 [])]\<rparr>)"
  by (simp add: build_cell_def factory_def resolve_class_def
      registering_constructor_def build_manager_def recorded_args_def
      RNNInitializer_def GenRNN_def Let_def)

text \<open>
  C10. When \<open>nm\<close> is the name of a cell that is already built, \<^verbatim>\<open>build(nm)\<close> runs the
  loop over the whole table \<^verbatim>\<open>cell_args\<close> from its first entry, building every entry that
  is not in \<^verbatim>\<open>cells\<close>, and so does what \<^verbatim>\<open>build()\<close> without a name does.
\<close>

theorem build_built_name:
  assumes "nm \<in> fst ` set (cells cm)"
  shows "build ctor cm (Some nm) = build_all ctor cm 0 \<and>
         build ctor cm (Some nm) = build ctor cm None"
  using assms by (simp add: build_def)

theorem build_built_name_witness:
  "''init'' \<in> fst ` set (cells build_manager) \<and>
   build registering_constructor build_manager (Some ''init'') =
     Some (None, build_manager\<lparr>cells :=
        [(''init'', built_cell), (''enc'', Cell ''enc'' (Some []) [] [] 0 0 0 []),
         (''gen'', Cell ''gen'' (Some []) [] [] 0 0 0 [])]\<rparr>) \<and>
   build registering_constructor build_manager (Some ''init'') =
     build registering_constructor build_manager None \<and>
   build registering_constructor build_manager (Some ''gen'') =
     Some (None, build_manager\<lparr>cells :=
        [(''init'', built_cell), (''gen'', Cell ''gen'' (Some []) [] [] 0 0 0 [])]\<rparr>)"
proof -
  have h: "''init'' \<in> fst ` set (cells build_manager)" by (simp add: build_manager_def)
  have g: "''gen'' \<notin> fst ` set (cells build_manager)" by (simp add: build_manager_def)
  note b = build_built_name[OF h, of registering_constructor]
  from b have "build registering_constructor build_manager (Some ''init'') =
     build_all registering_constructor build_manager 0" by blast
  with build_all_example
  have "build registering_constructor build_manager (Some ''init'') =
     Some (None, build_manager\<lparr>cells :=
        [(''init'', built_cell), (''enc'', Cell ''enc'' (Some []) [] [] 0 0 0 []),
         (''gen'', Cell ''gen'' (Some []) [] [] 0 0 0 [])]\<rparr>)"
    by (rule trans[rotated])
  moreover from b have "build registering_constructor build_manager (Some ''init'') =
     build registering_constructor build_manager None"
    by blast
  moreover have "build registering_constructor build_manager (Some ''gen'') =
     Some (None, build_manager\<lparr>cells :=
        [(''init'', built_cell), (''gen'', Cell ''gen'' (Some []) [] [] 0 0 0 [])]\<rparr>)"
    using g by (simp add: build_def build_cell_example)
  ultimately show ?thesis using h by blast
qed

section \<open>Cells: the parameter counts\<close>

lemma count_params_sum: "count_params ps n = n + sum_list (map (\<lambda>(k, p). param_size p) ps)"
  by (induction ps arbitrary: n) auto

lemma component_size_members:
  "component_size a = Inr l \<Longrightarrow> l = sum_list (map total_params (members a))"
  by (cases a) (auto split: if_splits)

lemma count_components_sum:
  "count_components d keys n = Inr m \<Longrightarrow>
   m = n + sum_list (map total_params
         (concat (map (\<lambda>key. case map_of d key of None \<Rightarrow> [] | Some a \<Rightarrow> members a) keys)))"
proof (induction keys arbitrary: n)
  case Nil
  then show ?case by simp
next
  case (Cons key keys)
  from Cons.prems obtain a l where a: "map_of d key = Some a" "component_size a = Inr l"
    and rest: "count_components d keys (n + l) = Inr m"
    by (auto split: option.splits sum.splits)
  from Cons.IH[OF rest] component_size_members[OF a(2)] a(1) show ?case by simp
qed

lemma count_all_InrD:
  assumes "count_all c = Inr c'"
  shows "cname c' = cname c" "params c' = params c" "component_keys c' = component_keys c"
    "dict c' = dict c" "param_keys c' = param_keys c"
    "total_params c' = n_params c' + n_component_params c'"
    "n_params c' = own_param_count c"
    "n_component_params c' = sum_list (map total_params (components c))"
  using assms
  by (auto simp: count_all_def own_param_count_def components_def count_params_sum
      split: option.splits sum.splits dest!: count_components_sum)

lemma set_tparams_frame:
  assumes "set_tparams m c = Inr (c', m')"
  shows "cname c' = cname c" "params c' = params c" "component_keys c' = component_keys c"
    "n_params c' = n_params c" "n_component_params c' = n_component_params c"
    "total_params c' = total_params c"
  using assms by (auto simp: set_tparams_def split: option.splits prod.splits)




subsection \<open>The example cells\<close>

lemma show_nat_digits:
  "show_nat 0 = ''0''" "show_nat 1 = ''1''" "show_nat (Suc 0) = ''1''" "show_nat 2 = ''2''"
  by code_simp+

lemma show_nat_12: "show_nat 12 = ''12''"
  by code_simp

lemma Cell_init_enc: "Cell_init empty_manager enc_raw = Inr (enc_built, enc_manager)"
  by (simp add: Cell_init_def and_then_def count_all_def set_tparams_def shared_def p_name_def
      enc_raw_def enc_built_def enc_manager_def empty_manager_def Let_def)

lemma Cell_init_net: "Cell_init enc_manager net_raw = Inr (net_built, net_manager)"
  by (simp add: Cell_init_def and_then_def count_all_def set_tparams_def shared_def p_name_def
      show_nat_digits net_raw_def net_built_def net_manager_def enc_manager_def
      empty_manager_def enc_built_def Let_def)

lemma get_params_net: "get_params net_built = Inl Bare_KeyError"
  by (simp add: net_built_def)

lemma get_params_enc:
  "get_params enc_built = Inr [Handle (Shared 0 ''net.enc.W'' (NdArray [4, 3])),
      Handle (Shared 1 ''net.enc.b'' (NdArray [3]))]"
  by (simp add: enc_built_def)


section \<open>Cells: shared parameter handles (\<^verbatim>\<open>set_tparams\<close>)\<close>















section \<open>Cells: parameter slices (\<^verbatim>\<open>get_params\<close>, \<^verbatim>\<open>select_params\<close>)\<close>

lemma select_params_own: "select_params c None ps = Inr (take (n_params c) ps)"
  by (simp add: select_params_def select_range_def slice_def)

text \<open>
  The slice of a component starts at or after \<^verbatim>\<open>n_params\<close>, where the slice of the cell's
  own parameters ends: the two index ranges are disjoint.
\<close>

lemma select_members_start:
  "select_members key k cs i (s, e, f) = (s', e', f') \<Longrightarrow> s \<le> s'"
proof (induction cs arbitrary: i s e f)
  case Nil
  then show ?case by simp
next
  case (Cons c cs)
  show ?case
  proof (cases "k @ ''_'' @ show_nat i = key")
    case True
    with Cons.prems show ?thesis by (simp add: Let_def)
  next
    case False
    with Cons.prems have "select_members key k cs (Suc i) (s + total_params c, e, f) = (s', e', f')"
      by (simp add: Let_def)
    from Cons.IH[OF this] show ?thesis by simp
  qed
qed

lemma select_loop_start:
  "select_loop d key ks (s, e, f) = Inr (s', e', f') \<Longrightarrow> s \<le> s'"
proof (induction ks arbitrary: s e f)
  case Nil
  then show ?case by simp
next
  case (Cons k ks)
  from Cons.prems obtain a where a: "map_of d k = Some a"
    by (cases "map_of d k") auto
  show ?case
  proof (cases a)
    case (Handle h)
    with Cons.prems a show ?thesis by simp
  next
    case (Handles hs)
    with Cons.prems a have "select_loop d key ks (s, e, f) = Inr (s', e', f')"
      by (simp split: if_splits)
    from Cons.IH[OF this] show ?thesis .
  next
    case (Comp c)
    show ?thesis
    proof (cases "k = key")
      case True
      with Cons.prems a Comp show ?thesis by (simp add: Let_def)
    next
      case False
      with Cons.prems a Comp
      have "select_loop d key ks (s + total_params c, e, f) = Inr (s', e', f')"
        by (simp add: Let_def)
      from Cons.IH[OF this] show ?thesis by simp
    qed
  next
    case (Comps cs)
    obtain s1 e1 f1 where m: "select_members key k cs 0 (s, e, f) = (s1, e1, f1)"
      by (cases "select_members key k cs 0 (s, e, f)") auto
    with Cons.prems a Comps have "select_loop d key ks (s1, e1, f1) = Inr (s', e', f')"
      by simp
    from Cons.IH[OF this] select_members_start[OF m] show ?thesis by simp
  next
    case NoneAttr
    with Cons.prems a have "select_loop d key ks (s, e, f) = Inr (s', e', f')" by simp
    from Cons.IH[OF this] show ?thesis .
  qed
qed

lemma select_range_component:
  assumes "select_range c (Some key) = Inr (s, e)"
  shows "n_params c \<le> s"
proof -
  from assms obtain f where "select_loop (dict c) key (component_keys c) (n_params c, 0, False) = Inr (s, e, f)"
    by (auto simp: select_range_def split: sum.splits if_splits)
  then show ?thesis by (rule select_loop_start)
qed

lemma slices_disjoint:
  assumes "select_range c None = Inr (s0, e0)" "select_range c (Some key) = Inr (s, e)"
  shows "{s0..<e0} \<inter> {s..<e} = {}"
  using assms(1) select_range_component[OF assms(2)] by (auto simp: select_range_def)

lemma select_members_not_found:
  "\<forall>j<length cs. k @ ''_'' @ show_nat (i + j) \<noteq> key \<Longrightarrow>
   select_members key k cs i (s, e, f) = (s + sum_list (map total_params cs), e, f)"
proof (induction cs arbitrary: i s)
  case Nil
  then show ?case by simp
next
  case (Cons c cs)
  from Cons.prems have here: "k @ ''_'' @ show_nat i \<noteq> key" by force
  have "\<forall>j<length cs. k @ ''_'' @ show_nat (Suc i + j) \<noteq> key"
  proof (intro allI impI)
    fix j assume "j < length cs"
    then have "Suc j < length (c # cs)" by simp
    with Cons.prems have "k @ ''_'' @ show_nat (i + Suc j) \<noteq> key" by blast
    then show "k @ ''_'' @ show_nat (Suc i + j) \<noteq> key" by simp
  qed
  from Cons.IH[OF this] here show ?case by (simp add: Let_def add.assoc)
qed

lemma select_loop_not_found:
  "key \<notin> set (addressable d ks) \<Longrightarrow> select_loop d key ks (s, e, f) = Inr (s', e', f') \<Longrightarrow> f' = f"
proof (induction ks arbitrary: s e)
  case Nil
  then show ?case by simp
next
  case (Cons k ks)
  from Cons.prems(2) obtain a where a: "map_of d k = Some a"
    by (cases "map_of d k") auto
  from Cons.prems(1) a have here: "key \<notin> set (component_names k a)"
    and rest: "key \<notin> set (addressable d ks)"
    by (simp_all add: addressable_def)
  show ?case
  proof (cases a)
    case (Handle h)
    with Cons.prems a show ?thesis by simp
  next
    case (Handles hs)
    with Cons.prems a have "select_loop d key ks (s, e, f) = Inr (s', e', f')"
      by (simp split: if_splits)
    from Cons.IH[OF rest this] show ?thesis .
  next
    case (Comp c)
    with here have "k \<noteq> key" by simp
    with Cons.prems a Comp
    have "select_loop d key ks (s + total_params c, e, f) = Inr (s', e', f')"
      by (simp add: Let_def)
    from Cons.IH[OF rest this] show ?thesis .
  next
    case (Comps cs)
    from here Comps have "\<forall>j<length cs. k @ ''_'' @ show_nat (0 + j) \<noteq> key" by auto
    from select_members_not_found[OF this]
    have "select_members key k cs 0 (s, e, f) = (s + sum_list (map total_params cs), e, f)" .
    with Cons.prems a Comps
    have "select_loop d key ks (s + sum_list (map total_params cs), e, f) = Inr (s', e', f')"
      by simp
    from Cons.IH[OF rest this] show ?thesis .
  next
    case NoneAttr
    with Cons.prems a have "select_loop d key ks (s, e, f) = Inr (s', e', f')" by simp
    from Cons.IH[OF rest this] show ?thesis .
  qed
qed

lemma select_loop_errors:
  "select_loop d key ks st = Inl err \<Longrightarrow> err = Bare_KeyError \<or> err = Attribute_Error"
proof (induction ks arbitrary: st)
  case Nil
  then show ?case by simp
next
  case (Cons k ks)
  obtain s e f where st: "st = (s, e, f)" by (cases st)
  show ?case
  proof (cases "map_of d k")
    case None
    with Cons.prems st show ?thesis by simp
  next
    case (Some a)
    with Cons.prems st Cons.IH show ?thesis
      by (cases a) (auto simp: Let_def split: if_splits)
  qed
qed

lemma select_params_not_found:
  assumes "key \<notin> set (addressable (dict c) (component_keys c))"
  shows "select_params c (Some key) ps = Inl Component_Not_Found \<or>
         select_params c (Some key) ps = Inl Bare_KeyError \<or>
         select_params c (Some key) ps = Inl Attribute_Error"
proof (cases "select_loop (dict c) key (component_keys c) (n_params c, 0, False)")
  case (Inl err)
  with select_loop_errors[OF Inl] show ?thesis
    by (auto simp: select_params_def select_range_def)
next
  case (Inr r)
  obtain s e f where r: "r = (s, e, f)" by (cases r)
  from select_loop_not_found[OF assms Inr[unfolded r]] have "f = False" .
  with Inr r show ?thesis by (simp add: select_params_def select_range_def)
qed

text \<open>
  The constructor leaves as many parameter keys as it counted parameters, so whenever
  \<^verbatim>\<open>get_params\<close> returns, its first \<^verbatim>\<open>n_params\<close> entries are the attributes stored under
  the parameter keys, in the order of \<^verbatim>\<open>param_keys\<close>.
\<close>

lemma set_tparams_list_keys:
  "set_tparams_list m cn k i pps = (tps, kks, m') \<Longrightarrow> length kks = length pps"
proof (induction pps arbitrary: m i tps kks m')
  case Nil
  then show ?case by simp
next
  case (Cons pp pps)
  obtain tp m1 where s: "shared m (p_name cn (k @ ''['' @ show_nat i @ '']'')) pp = (tp, m1)"
    by (cases "shared m (p_name cn (k @ ''['' @ show_nat i @ '']'')) pp")
  obtain tps' kks' m2 where r: "set_tparams_list m1 cn k (Suc i) pps = (tps', kks', m2)"
    by (cases "set_tparams_list m1 cn k (Suc i) pps") auto
  from Cons.prems s r have "kks = (k @ ''['' @ show_nat i @ '']'') # kks'" by (simp add: Let_def)
  with Cons.IH[OF r] show ?case by simp
qed

lemma set_tparams_loop_keys:
  "set_tparams_loop m cn ps d pk = (d', pk', m') \<Longrightarrow>
   length pk' = length pk + sum_list (map (\<lambda>(k, p). param_size p) ps)"
proof (induction ps arbitrary: m d pk)
  case Nil
  then show ?case by simp
next
  case (Cons kp ps)
  obtain k p where kp: "kp = (k, p)" by (cases kp)
  show ?case
  proof (cases p)
    case (Arr a)
    obtain tp m1 where s: "shared m (p_name cn k) a = (tp, m1)"
      by (cases "shared m (p_name cn k) a")
    from Cons.prems have "set_tparams_loop m1 cn ps (AList.update k (Handle tp) d) (pk @ [k]) = (d', pk', m')"
      unfolding kp Arr by (simp add: s)
    from Cons.IH[OF this] show ?thesis by (simp add: kp Arr)
  next
    case (ArrList as)
    obtain tps kks m1 where s: "set_tparams_list m cn k 0 as = (tps, kks, m1)"
      by (cases "set_tparams_list m cn k 0 as") auto
    from Cons.prems have "set_tparams_loop m1 cn ps (AList.update k (Handles tps) d) (pk @ kks) = (d', pk', m')"
      unfolding kp ArrList by (simp add: s)
    from Cons.IH[OF this] set_tparams_list_keys[OF s] show ?thesis by (simp add: kp ArrList)
  qed
qed

lemma Cell_init_param_keys:
  assumes "Cell_init m c = Inr (c', m')"
  shows "length (param_keys c') = n_params c'"
proof -
  from assms obtain c1 where 1: "count_all c = Inr c1" and 2: "set_tparams m c1 = Inr (c', m')"
    by (auto simp: Cell_init_def and_then_def split: sum.splits)
  from 2 obtain ps where ps: "params c1 = Some ps"
    and l: "set_tparams_loop m (cname c1) ps (dict c1) [] = (dict c', param_keys c', m')"
    by (auto simp: set_tparams_def split: option.splits prod.splits)
  from count_all_InrD(2)[OF 1] ps have "params c = Some ps" by simp
  with count_all_InrD(7)[OF 1]
  have "n_params c1 = sum_list (map (\<lambda>(k, p). param_size p) ps)"
    by (simp add: own_param_count_def)
  with set_tparams_loop_keys[OF l] set_tparams_frame(4)[OF 2] show ?thesis by simp
qed

lemma own_params_length: "own_params d ks = Inr as \<Longrightarrow> length as = length ks"
  by (induction ks arbitrary: as) (auto split: option.splits sum.splits)

lemma get_params_own_slice:
  assumes "get_params c = Inr qs" and "length (param_keys c) = n_params c"
  shows "select_params c None qs = own_params (dict c) (param_keys c)"
proof -
  from assms(1) obtain own rest where o: "own_params (dict c) (param_keys c) = Inr own"
    and q: "qs = own @ rest"
    by (auto split: sum.splits)
  from own_params_length[OF o] assms(2) have "length own = n_params c" by simp
  with o q show ?thesis by (simp add: select_params_own)
qed

lemma select_params_enc:
  "get_params enc_built = Inr [Handle (Shared 0 ''net.enc.W'' (NdArray [4, 3])),
      Handle (Shared 1 ''net.enc.b'' (NdArray [3]))] \<and>
   select_params enc_built None [Handle (Shared 0 ''net.enc.W'' (NdArray [4, 3])),
      Handle (Shared 1 ''net.enc.b'' (NdArray [3]))] =
     Inr [Handle (Shared 0 ''net.enc.W'' (NdArray [4, 3])),
      Handle (Shared 1 ''net.enc.b'' (NdArray [3]))]"
  by (simp add: get_params_enc select_params_own) (simp add: enc_built_def)

text \<open>
  C9. The cell \<^verbatim>\<open>net\<close> has the list-valued parameter group \<^verbatim>\<open>V\<close>. Its constructor
  stores the group's handles as a list under the attribute \<^verbatim>\<open>V\<close> and enters the keys
  \<^verbatim>\<open>V[0]\<close> and \<^verbatim>\<open>V[1]\<close> in \<^verbatim>\<open>param_keys\<close>; \<^verbatim>\<open>get_params\<close> then looks up an attribute
  \<^verbatim>\<open>V[0]\<close>, which does not exist, and raises \<^verbatim>\<open>KeyError\<close>: there is no list
  \<^verbatim>\<open>get_params(c)\<close> of which \<^verbatim>\<open>select_params\<close> could take the slice.
\<close>

theorem get_params_list_group_KeyError:
  "Cell_init enc_manager net_raw = Inr (net_built, net_manager) \<and>
   param_keys net_built = [''U'', ''V[0]'', ''V[1]''] \<and>
   map_of (dict net_built) ''V'' =
     Some (Handles [Shared 3 ''net.V[0]'' (NdArray [3]), Shared 4 ''net.V[1]'' (NdArray [3])]) \<and>
   map_of (dict net_built) ''V[0]'' = None \<and>
   get_params net_built = Inl Bare_KeyError"
  by (simp add: Cell_init_net get_params_net) (simp add: net_built_def)

end
